theory Spec2Isabelle
  imports Complex_Main "HOL-Library.Char_ord" "HOL-Library.List_Lexorder" "HOL-Library.AList"
begin

section \<open>Python values, exceptions and the environment of the input process\<close>

text \<open>
  The input process of Slips (\<^verbatim>\<open>inputProcess.py\<close>) moves Python values around: lines
  read from files (\<^verbatim>\<open>str\<close>), decoded JSON documents, and the dictionaries
  \<^verbatim>\<open>{'type': ..., 'data': ...}\<close> it puts on the profiler queue. \<open>pyval\<close> is the part of
  Python's value universe that these can be. A dictionary is an association list in
  insertion order, as Python's \<^verbatim>\<open>dict\<close> is; numbers are rationals (Python compares
  \<^verbatim>\<open>int\<close> and finite \<^verbatim>\<open>float\<close> values by their exact mathematical value; the
  non-finite literals \<^verbatim>\<open>NaN\<close> and \<^verbatim>\<open>Infinity\<close> are outside this model). A string is
  a list of 8-bit characters, compared lexicographically by character code as Python does.
\<close>

datatype pyval =
    PNone
  | PBool bool
  | PNum rat
  | PStr string
  | PList "pyval list"
  | PDict "(string \<times> pyval) list"

datatype error =
    TypeError
  | KeyError
  | IndexError
  | FileNotFoundError
  | Unmodelled

text \<open>
  What is on a queue: a reference to a dictionary object living in the store (the address
  of the object, so that a later assignment through another name for the same object is
  visible), or an immutable string.
\<close>

datatype qitem = QObj nat | QStr string

type_synonym store = "pyval list"

definition alloc :: "store \<Rightarrow> pyval \<Rightarrow> nat \<times> store" where
  "alloc h v = (length h, h @ [v])"

text \<open>\<^verbatim>\<open>obj[k] = v\<close> for the dictionary object at address \<open>a\<close>.\<close>

definition setitem :: "store \<Rightarrow> nat \<Rightarrow> string \<Rightarrow> pyval \<Rightarrow> store" where
  "setitem h a k v =
     (if a < length h then
        (case h ! a of PDict kvs \<Rightarrow> h[a := PDict (AList.update k v kvs)] | _ \<Rightarrow> h)
      else h)"

text \<open>Reading field \<open>k\<close> of the dictionary object at address \<open>a\<close>.\<close>

definition getitem :: "store \<Rightarrow> nat \<Rightarrow> string \<Rightarrow> pyval option" where
  "getitem h a k =
     (if a < length h then
        (case h ! a of PDict kvs \<Rightarrow> map_of kvs k | _ \<Rightarrow> None)
      else None)"

text \<open>
  Everything the process reads from outside is an oracle of the environment:
  \<^item> \<open>clock n\<close> is what the \<open>n\<close>-th call of \<^verbatim>\<open>datetime.now()\<close> returns, in microseconds;
    nothing is assumed about it (a wall clock may stand still or step backwards);
  \<^item> \<open>get_all_zeek_file n\<close> is what the \<open>n\<close>-th call of
    \<^verbatim>\<open>__database__.get_all_zeek_file()\<close> returns, in the order the \<^verbatim>\<open>for\<close> loop iterates it;
  \<^item> \<open>disk p path\<close> is the content of the file \<open>path\<close>, as the list of its lines, during
    pass \<open>p\<close> of the reading loop (\<open>None\<close>: there is no such file);
  \<^item> \<open>json_loads\<close> is \<^verbatim>\<open>json.loads\<close> (\<open>None\<close>: it raises \<^verbatim>\<open>JSONDecodeError\<close>);
  \<^item> \<open>stdin\<close> are the lines of the standard input, \<open>isdir\<close> and \<open>listdir\<close> are
    \<^verbatim>\<open>os.path.isdir\<close> and \<^verbatim>\<open>os.listdir\<close>.
\<close>

record env =
  clock :: "nat \<Rightarrow> int"
  get_all_zeek_file :: "nat \<Rightarrow> string list"
  disk :: "nat \<Rightarrow> string \<Rightarrow> string list option"
  json_loads :: "string \<Rightarrow> pyval option"
  stdin :: "string list"
  isdir :: "string \<Rightarrow> bool"
  listdir :: "string \<Rightarrow> string list"

text \<open>\<^verbatim>\<open>sub in s\<close> on strings: \<open>sub\<close> occurs in \<open>s\<close> as a contiguous substring.\<close>

fun py_in :: "string \<Rightarrow> string \<Rightarrow> bool" where
  "py_in sub [] = (sub = [])"
| "py_in sub (c # cs) = (take (length sub) (c # cs) = sub \<or> py_in sub cs)"

text \<open>
  \<^verbatim>\<open>file_handler.readline()\<close> for a handle that has consumed \<open>pos\<close> lines of a file whose
  lines are \<open>content\<close>: the next line and the new position, or the empty string when there
  is nothing more to read for now. An open handle of a file that has disappeared reads
  nothing.
\<close>

definition readline :: "string list option \<Rightarrow> nat \<Rightarrow> string \<times> nat" where
  "readline content pos =
     (case content of
        None \<Rightarrow> ([], pos)
      | Some ls \<Rightarrow> if pos < length ls then (ls ! pos, Suc pos) else ([], pos))"

text \<open>
  \<^verbatim>\<open>(now - last).seconds\<close>: the \<^verbatim>\<open>seconds\<close> attribute of a \<^verbatim>\<open>timedelta\<close>. Python
  normalises a difference to days, seconds and microseconds with
  \<open>0 \<le> seconds < 86400\<close> and \<open>0 \<le> microseconds < 1000000\<close>, the days carrying the sign.
\<close>

definition timedelta_seconds :: "int \<Rightarrow> int" where
  "timedelta_seconds us = (us div 1000000) mod 86400"

section \<open>Ordering of timestamps\<close>

text \<open>
  Python's \<^verbatim>\<open><\<close> on the values a timestamp can be. Numbers (and booleans, which are
  integers in Python) compare by value, strings lexicographically; a number against a
  string, and \<^verbatim>\<open>None\<close> or a dictionary against anything, raise \<^verbatim>\<open>TypeError\<close>. Two lists
  compare element by element in Python; that case is left out of the model and answers
  \<open>Unmodelled\<close>.
\<close>

fun num_of :: "pyval \<Rightarrow> rat option" where
  "num_of (PNum r) = Some r"
| "num_of (PBool b) = Some (if b then 1 else 0)"
| "num_of _ = None"

fun py_lt :: "pyval \<Rightarrow> pyval \<Rightarrow> error + bool" where
  "py_lt (PStr s) (PStr t) = Inr (s < t)"
| "py_lt (PList xs) (PList ys) = Inl Unmodelled"
| "py_lt a b =
     (case (num_of a, num_of b) of
        (Some x, Some y) \<Rightarrow> Inr (x < y)
      | _ \<Rightarrow> Inl TypeError)"

text \<open>
  \<^verbatim>\<open>sorted(d, key=d.get)\<close> for a dictionary \<open>d\<close>: the keys of \<open>d\<close>, stably sorted by their
  values with \<^verbatim>\<open><\<close> only. Python's list sort is stable, so on values that \<^verbatim>\<open><\<close> orders
  it returns what the stable insertion sort below returns; a list of fewer than two keys
  is returned without any comparison, and for two keys the single comparison made is
  that of the second value against the first, here as in Python. An exception raised by
  a comparison ends the sort.
\<close>

fun insert_by :: "string \<times> pyval \<Rightarrow> (string \<times> pyval) list \<Rightarrow> error + (string \<times> pyval) list" where
  "insert_by x [] = Inr [x]"
| "insert_by x (y # ys) =
     (case py_lt (snd y) (snd x) of
        Inl e \<Rightarrow> Inl e
      | Inr True \<Rightarrow> (case insert_by x ys of Inl e \<Rightarrow> Inl e | Inr zs \<Rightarrow> Inr (y # zs))
      | Inr False \<Rightarrow> Inr (x # y # ys))"

fun sort_items :: "(string \<times> pyval) list \<Rightarrow> error + (string \<times> pyval) list" where
  "sort_items [] = Inr []"
| "sort_items (x # xs) =
     (case sort_items xs of Inl e \<Rightarrow> Inl e | Inr ys \<Rightarrow> insert_by x ys)"

definition py_sorted :: "(string \<times> pyval) list \<Rightarrow> error + string list" where
  "py_sorted d = (case sort_items d of Inl e \<Rightarrow> Inl e | Inr ys \<Rightarrow> Inr (map fst ys))"

section \<open>The multi-file tailer: \<^verbatim>\<open>read_zeek_files\<close>\<close>

text \<open>
  The local variables of \<^verbatim>\<open>read_zeek_files\<close>, the two queues' relevant part and the
  counters of the oracle calls made so far. A file handle is the number of lines it has
  consumed. \<open>cache_lines\<close> maps a file name to the address of the dictionary cached for
  it. \<open>sleeps\<close> lists the arguments of the \<^verbatim>\<open>time.sleep\<close> calls, in milliseconds.
  The telemetry written with \<^verbatim>\<open>self.print\<close> goes to the other queue and never
  influences the profiler queue or the control flow; it is not part of the state.
\<close>

record tailer =
  zeek_files :: "string list"
  open_file_handlers :: "(string \<times> nat) list"
  time_last_lines :: "(string \<times> pyval) list"
  cache_lines :: "(string \<times> nat) list"
  last_updated_file_time :: int
  lines :: nat
  profilerqueue :: "qitem list"
  heap :: store
  clock_calls :: nat
  db_calls :: nat
  passes :: nat
  sleeps :: "nat list"

text \<open>Lines 179 to 181: the files that do not contain flows.\<close>

definition ignored_file :: "string \<Rightarrow> bool" where
  "ignored_file filename =
     (py_in ''capture_loss'' filename \<or> py_in ''loaded_scripts'' filename
      \<or> py_in ''packet_filter'' filename \<or> py_in ''stats'' filename
      \<or> py_in ''weird'' filename \<or> py_in ''reporter'' filename)"

text \<open>
  Lines 172 to 185: the handle of \<open>filename\<close>, opened on the first visit. \<open>Inr None\<close> is
  the \<^verbatim>\<open>continue\<close> of an ignored file; a file that cannot be opened raises.
\<close>

definition get_handler :: "env \<Rightarrow> tailer \<Rightarrow> string \<Rightarrow> error + tailer option" where
  "get_handler E s filename =
     (case map_of (open_file_handlers s) filename of
        Some file_handler \<Rightarrow> Inr (Some s)
      | None \<Rightarrow>
          if ignored_file filename then Inr None
          else (case disk E (passes s) (filename @ ''.log'') of
                  None \<Rightarrow> Inl FileNotFoundError
                | Some ls \<Rightarrow>
                    Inr (Some (s\<lparr>open_file_handlers :=
                                   AList.update filename 0 (open_file_handlers s)\<rparr>))))"

text \<open>
  Lines 202 to 230: the timestamp and the payload of a line that was read. \<open>Inr None\<close> is
  the \<^verbatim>\<open>continue\<close> of a comment line (and of the empty line that the \<^verbatim>\<open>IndexError\<close>
  handler is written for). A JSON document that is not an object makes \<^verbatim>\<open>nline['ts']\<close>
  raise \<^verbatim>\<open>TypeError\<close>, which no handler of the function catches.
\<close>

definition parse_line :: "env \<Rightarrow> string \<Rightarrow> error + (pyval \<times> pyval) option" where
  "parse_line E zeek_line =
     (case json_loads E zeek_line of
        Some nline \<Rightarrow>
          (case nline of
             PDict kvs \<Rightarrow>
               Inr (Some ((case map_of kvs ''ts'' of Some t \<Rightarrow> t | None \<Rightarrow> PNum 0), nline))
           | _ \<Rightarrow> Inl TypeError)
      | None \<Rightarrow>
          (case zeek_line of
             [] \<Rightarrow> Inr None
           | c # cs \<Rightarrow>
               if c = CHR ''#'' then Inr None
               else Inr (Some (PStr (takeWhile (\<lambda>x. x \<noteq> CHR 0x09) zeek_line), PStr zeek_line))))"

text \<open>Line 201: a line was read, the clock of the last update is set.\<close>

definition touch :: "env \<Rightarrow> tailer \<Rightarrow> tailer" where
  "touch E s = s\<lparr>last_updated_file_time := clock E (clock_calls s),
                  clock_calls := Suc (clock_calls s)\<rparr>"

text \<open>
  Lines 205, 215, 216 (226 to 228 for a tab-separated line), 232 and 237: a new
  dictionary for the line, cached under the file name with its timestamp.
\<close>

definition cache_line :: "tailer \<Rightarrow> string \<Rightarrow> pyval \<Rightarrow> pyval \<Rightarrow> tailer" where
  "cache_line s filename timestamp nline =
     (let (line, h) = alloc (heap s) (PDict [(''type'', PStr filename), (''data'', nline)])
      in s\<lparr>heap := h,
           time_last_lines := AList.update filename timestamp (time_last_lines s),
           cache_lines := AList.update filename line (cache_lines s)\<rparr>)"

text \<open>Lines 202 to 237: the line is classified; a comment leaves the state as it is.\<close>

definition classify :: "env \<Rightarrow> tailer \<Rightarrow> string \<Rightarrow> string \<Rightarrow> error + tailer" where
  "classify E s filename zeek_line =
     (case parse_line E zeek_line of
        Inl e \<Rightarrow> Inl e
      | Inr None \<Rightarrow> Inr s
      | Inr (Some (timestamp, nline)) \<Rightarrow> Inr (cache_line s filename timestamp nline))"

text \<open>
  Lines 193 to 237: the next line of the file is read; an empty read leaves everything
  but the handle as it is, anything else sets the clock and is classified.
\<close>

definition read_next :: "env \<Rightarrow> tailer \<Rightarrow> string \<Rightarrow> error + tailer" where
  "read_next E s filename =
     (case map_of (open_file_handlers s) filename of
        None \<Rightarrow> Inl KeyError
      | Some pos \<Rightarrow>
          (case readline (disk E (passes s) (filename @ ''.log'')) pos of
             (zeek_line, pos') \<Rightarrow>
               let s2 = s\<lparr>open_file_handlers :=
                            AList.update filename pos' (open_file_handlers s)\<rparr>
               in if zeek_line = [] then Inr s2
                  else classify E (touch E s2) filename zeek_line))"

text \<open>
  Lines 170 to 237: the body of the \<^verbatim>\<open>for\<close> loop, for one file name. A file with a
  line waiting in the cache is not read.
\<close>

definition for_body :: "env \<Rightarrow> tailer \<Rightarrow> string \<Rightarrow> error + tailer" where
  "for_body E s filename =
     (case get_handler E s filename of
        Inl e \<Rightarrow> Inl e
      | Inr None \<Rightarrow> Inr s
      | Inr (Some s1) \<Rightarrow>
          (case map_of (cache_lines s1) filename of
             Some waiting \<Rightarrow> Inr s1
           | None \<Rightarrow> read_next E s1 filename))"

fun for_files :: "env \<Rightarrow> tailer \<Rightarrow> string list \<Rightarrow> error + tailer" where
  "for_files E s [] = Inr s"
| "for_files E s (filename # rest) =
     (case for_body E s filename of Inl e \<Rightarrow> Inl e | Inr s' \<Rightarrow> for_files E s' rest)"

text \<open>
  Lines 244 to 253: whether the loop is left. The clock is read only when no line is
  cached.
\<close>

definition check_timeout :: "env \<Rightarrow> int \<Rightarrow> tailer \<Rightarrow> bool \<times> tailer" where
  "check_timeout E bro_timeout s =
     (if cache_lines s = [] then
        let now = clock E (clock_calls s);
            diff = timedelta_seconds (now - last_updated_file_time s)
        in (diff \<ge> bro_timeout, s\<lparr>clock_calls := Suc (clock_calls s)\<rparr>)
      else (False, s))"

text \<open>The catalogue is read again (lines 266 and 284); the pass is over.\<close>

definition refresh :: "env \<Rightarrow> tailer \<Rightarrow> tailer" where
  "refresh E s = s\<lparr>zeek_files := get_all_zeek_file E (db_calls s),
                    db_calls := Suc (db_calls s),
                    passes := Suc (passes s)\<rparr>"

text \<open>
  Lines 255 to 284: the cached line with the smallest timestamp is put on the profiler
  queue; with nothing cached, the loop sleeps one second.
\<close>

definition emit :: "env \<Rightarrow> tailer \<Rightarrow> error + tailer" where
  "emit E s =
     (case py_sorted (time_last_lines s) of
        Inl e \<Rightarrow> Inl e
      | Inr [] \<Rightarrow> Inr ((refresh E s)\<lparr>sleeps := sleeps s @ [1000]\<rparr>)
      | Inr (key # others) \<Rightarrow>
          (case map_of (cache_lines s) key of
             None \<Rightarrow> Inl KeyError
           | Some line_to_send \<Rightarrow>
               Inr (refresh E
                     (s\<lparr>profilerqueue := profilerqueue s @ [QObj line_to_send],
                        lines := Suc (lines s),
                        cache_lines := AList.delete key (cache_lines s),
                        time_last_lines := AList.delete key (time_last_lines s)\<rparr>))))"

text \<open>One pass of the \<^verbatim>\<open>while True\<close> loop; the flag says that the loop was left.\<close>

definition pass :: "env \<Rightarrow> int \<Rightarrow> tailer \<Rightarrow> error + (bool \<times> tailer)" where
  "pass E bro_timeout s =
     (case for_files E s (zeek_files s) of
        Inl e \<Rightarrow> Inl e
      | Inr s1 \<Rightarrow>
          (case check_timeout E bro_timeout s1 of
             (True, s2) \<Rightarrow> Inr (True, s2)
           | (False, s2) \<Rightarrow>
               (case emit E s2 of Inl e \<Rightarrow> Inl e | Inr s3 \<Rightarrow> Inr (False, s3))))"

text \<open>
  The loop, observed after at most \<open>n\<close> passes: it is still running, in the state shown,
  or it was left by the \<^verbatim>\<open>break\<close>, or an exception ended it.
\<close>

datatype 'a progress = Running 'a | Done 'a | Raised error

fun zeek_loop :: "nat \<Rightarrow> env \<Rightarrow> int \<Rightarrow> tailer \<Rightarrow> tailer progress" where
  "zeek_loop 0 E bro_timeout s = Running s"
| "zeek_loop (Suc n) E bro_timeout s =
     (case pass E bro_timeout s of
        Inl e \<Rightarrow> Raised e
      | Inr (True, s') \<Rightarrow> Done s'
      | Inr (False, s') \<Rightarrow> zeek_loop n E bro_timeout s')"

text \<open>
  Lines 160 to 166: the state in which the loop is entered, given the profiler queue,
  the store and the counters at the call.
\<close>

definition init_tailer :: "env \<Rightarrow> qitem list \<Rightarrow> store \<Rightarrow> nat \<Rightarrow> nat \<Rightarrow> nat list \<Rightarrow> tailer" where
  "init_tailer E q h c d sl =
     \<lparr>zeek_files = get_all_zeek_file E d,
      open_file_handlers = [],
      time_last_lines = [],
      cache_lines = [],
      last_updated_file_time = clock E c,
      lines = 0,
      profilerqueue = q,
      heap = h,
      clock_calls = Suc c,
      db_calls = Suc d,
      passes = 0,
      sleeps = sl\<rparr>"

text \<open>
  \<^verbatim>\<open>read_zeek_files\<close>: the loop, then every handle is closed (which changes nothing that
  is observed here) and the number of lines sent is returned, with the final state.
  \<open>None\<close>: the loop is still running after \<open>fuel\<close> passes.
\<close>

definition read_zeek_files ::
  "nat \<Rightarrow> env \<Rightarrow> int \<Rightarrow> qitem list \<Rightarrow> store \<Rightarrow> nat \<Rightarrow> nat \<Rightarrow> nat list \<Rightarrow> (error + nat \<times> tailer) option" where
  "read_zeek_files fuel E bro_timeout q h c d sl =
     (case zeek_loop fuel E bro_timeout (init_tailer E q h c d sl) of
        Running s \<Rightarrow> None
      | Raised e \<Rightarrow> Some (Inl e)
      | Done s \<Rightarrow> Some (Inr (lines s, s)))"

section \<open>The nfdump reader: \<^verbatim>\<open>read_nfdump_file\<close>\<close>

text \<open>
  The local variables of \<^verbatim>\<open>read_nfdump_file\<close>. The dictionary \<^verbatim>\<open>line\<close> is created once,
  before the loop; \<open>nf_line\<close> is its address.
\<close>

record nfreader =
  file_handler :: "nat option"
  next_line :: "string option"
  nf_last_updated_file_time :: int
  nf_lines :: nat
  nf_line :: nat
  nf_profilerqueue :: "qitem list"
  nf_heap :: store
  nf_clock_calls :: nat
  nf_passes :: nat
  nf_sleeps :: "nat list"

definition nfdump_output_file :: string where
  "nfdump_output_file = ''nfdump_output.txt''"

text \<open>\<^verbatim>\<open>readline\<close> as a Python value: always a \<^verbatim>\<open>str\<close>, empty at the end of the file.\<close>

definition readline_value :: "string list option \<Rightarrow> nat \<Rightarrow> pyval \<times> nat" where
  "readline_value content pos = (case readline content pos of (l, pos') \<Rightarrow> (PStr l, pos'))"

text \<open>\<^verbatim>\<open>c.isdigit()\<close> for one character, on the ASCII digits.\<close>

definition isdigit :: "char \<Rightarrow> bool" where
  "isdigit c = (CHR ''0'' \<le> c \<and> c \<le> CHR ''9'')"

text \<open>
  Lines 120 to 130: is the line a flow? The first comma-separated field must begin with a
  digit; a line that begins with a comma has an empty first field, and the
  \<^verbatim>\<open>IndexError\<close> of \<^verbatim>\<open>ts[0]\<close> is caught.
\<close>

definition valid_line :: "string \<Rightarrow> bool" where
  "valid_line nfdump_line =
     (case takeWhile (\<lambda>x. x \<noteq> CHR '','') nfdump_line of
        [] \<Rightarrow> False
      | c # cs \<Rightarrow> isdigit c)"

text \<open>Lines 148 to 153: the shared dictionary gets the line and is put on the queue.\<close>

definition nf_send :: "nfreader \<Rightarrow> string \<Rightarrow> nfreader" where
  "nf_send s l =
     s\<lparr>nf_heap := setitem (nf_heap s) (nf_line s) ''data'' (PStr l),
       nf_profilerqueue := nf_profilerqueue s @ [QObj (nf_line s)],
       next_line := None,
       nf_lines := Suc (nf_lines s)\<rparr>"

text \<open>
  One pass of the loop of \<^verbatim>\<open>read_nfdump_file\<close> (lines 104 to 153); the flag says that
  the loop was left. The test of line 137 compares the value that \<^verbatim>\<open>readline\<close> returned
  with \<^verbatim>\<open>None\<close>.
\<close>

definition nf_pass :: "env \<Rightarrow> int \<Rightarrow> nfreader \<Rightarrow> bool \<times> nfreader" where
  "nf_pass E nfdump_timeout s =
     (let opened =
            (case file_handler s of
               Some pos \<Rightarrow> Some (s, pos)
             | None \<Rightarrow>
                 (case disk E (nf_passes s) nfdump_output_file of
                    None \<Rightarrow> None
                  | Some ls \<Rightarrow> Some (s\<lparr>file_handler := Some 0\<rparr>, 0)))
      in case opened of
           None \<Rightarrow>
             (False, s\<lparr>nf_sleeps := nf_sleeps s @ [1000], nf_passes := Suc (nf_passes s)\<rparr>)
         | Some (s1, pos) \<Rightarrow>
             (case next_line s1 of
                Some l \<Rightarrow> (False, (nf_send s1 l)\<lparr>nf_passes := Suc (nf_passes s1)\<rparr>)
              | None \<Rightarrow>
                  let (nfdump_line, pos') =
                        readline_value (disk E (nf_passes s1) nfdump_output_file) pos;
                      s2 = s1\<lparr>file_handler := Some pos'\<rparr>
                  in (case nfdump_line of
                        PStr (c # cs) \<Rightarrow>
                          if \<not> valid_line (c # cs)
                          then (False, s2\<lparr>nf_passes := Suc (nf_passes s2)\<rparr>)
                          else
                            let s3 = s2\<lparr>nf_last_updated_file_time := clock E (nf_clock_calls s2),
                                        nf_clock_calls := Suc (nf_clock_calls s2)\<rparr>
                            in (False, (nf_send s3 (c # cs))\<lparr>nf_passes := Suc (nf_passes s3)\<rparr>)
                      | _ \<Rightarrow>
                          if nfdump_line = PNone then
                            let now = clock E (nf_clock_calls s2);
                                diff = timedelta_seconds (now - nf_last_updated_file_time s2);
                                s3 = s2\<lparr>nf_clock_calls := Suc (nf_clock_calls s2)\<rparr>
                            in if diff \<ge> nfdump_timeout then (True, s3)
                               else (False, s3\<lparr>nf_passes := Suc (nf_passes s3)\<rparr>)
                          else (False, s2\<lparr>nf_passes := Suc (nf_passes s2)\<rparr>))))"

fun nf_loop :: "nat \<Rightarrow> env \<Rightarrow> int \<Rightarrow> nfreader \<Rightarrow> nfreader progress" where
  "nf_loop 0 E nfdump_timeout s = Running s"
| "nf_loop (Suc n) E nfdump_timeout s =
     (case nf_pass E nfdump_timeout s of
        (True, s') \<Rightarrow> Done s'
      | (False, s') \<Rightarrow> nf_loop n E nfdump_timeout s')"

text \<open>Lines 97 to 102: the state in which the loop is entered.\<close>

definition init_nfreader :: "env \<Rightarrow> qitem list \<Rightarrow> store \<Rightarrow> nat \<Rightarrow> nat list \<Rightarrow> nfreader" where
  "init_nfreader E q h c sl =
     (let (line, h1) = alloc h (PDict []);
          h2 = setitem h1 line ''type'' (PStr ''nfdump'')
      in \<lparr>file_handler = None,
          next_line = None,
          nf_last_updated_file_time = clock E c,
          nf_lines = 0,
          nf_line = line,
          nf_profilerqueue = q,
          nf_heap = h2,
          nf_clock_calls = Suc c,
          nf_passes = 0,
          nf_sleeps = sl\<rparr>)"

definition read_nfdump_file ::
  "nat \<Rightarrow> env \<Rightarrow> int \<Rightarrow> qitem list \<Rightarrow> store \<Rightarrow> nat \<Rightarrow> nat list \<Rightarrow> (nat \<times> nfreader) option" where
  "read_nfdump_file fuel E nfdump_timeout q h c sl =
     (case nf_loop fuel E nfdump_timeout (init_nfreader E q h c sl) of
        Done s \<Rightarrow> Some (nf_lines s, s)
      | _ \<Rightarrow> None)"

section \<open>The process: \<^verbatim>\<open>run\<close>\<close>

text \<open>
  What \<^verbatim>\<open>run\<close> leaves behind: the profiler queue and the store, the count of lines, the
  \<^verbatim>\<open>time.sleep\<close> calls made (milliseconds), the stems given to
  \<^verbatim>\<open>__database__.add_zeek_file\<close>, and the oracle counters. The shell commands, the
  directory of Zeek and the file observer act on the world outside and are not part of
  it. \<^verbatim>\<open>run\<close> ends by returning a value (\<^verbatim>\<open>True\<close>, or \<^verbatim>\<open>None\<close> when it falls off its end),
  leaving a world behind, or, out of the handler of \<^verbatim>\<open>Exception\<close>, by
  \<^verbatim>\<open>sys.exit(1)\<close> with that exit code. A \<^verbatim>\<open>KeyboardInterrupt\<close> arrives from outside and
  is not modelled.
\<close>

record world =
  w_profilerqueue :: "qitem list"
  w_heap :: store
  w_lines :: nat
  w_sleeps :: "nat list"
  w_db_added :: "string list"
  w_clock_calls :: nat
  w_db_calls :: nat

datatype outcome = Returned pyval world | Exited nat

definition init_world :: world where
  "init_world =
     \<lparr>w_profilerqueue = [], w_heap = [], w_lines = 0, w_sleeps = [], w_db_added = [],
      w_clock_calls = 0, w_db_calls = 0\<rparr>"

text \<open>Lines 316 to 320: the loop over the lines of the standard input.\<close>

fun stdin_loop :: "nat \<Rightarrow> string list \<Rightarrow> world \<Rightarrow> world" where
  "stdin_loop line [] w = w"
| "stdin_loop line (t_line # rest) w =
     stdin_loop line rest
       (w\<lparr>w_heap := setitem (w_heap w) line ''data'' (PStr t_line),
          w_profilerqueue := w_profilerqueue w @ [QObj line],
          w_lines := Suc (w_lines w)\<rparr>)"

text \<open>Lines 354 to 359: the loop over the lines of the single file.\<close>

fun file_loop :: "nat \<Rightarrow> nat \<Rightarrow> string list \<Rightarrow> world \<Rightarrow> world" where
  "file_loop read_lines_delay line [] w = w"
| "file_loop read_lines_delay line (t_line # rest) w =
     file_loop read_lines_delay line rest
       (w\<lparr>w_sleeps := w_sleeps w @ [read_lines_delay],
          w_heap := setitem (w_heap w) line ''data'' (PStr t_line),
          w_profilerqueue := w_profilerqueue w @ [QObj line],
          w_lines := Suc (w_lines w)\<rparr>)"

text \<open>Lines 326 to 332: the stems of the \<^verbatim>\<open>.log\<close> files of the folder are registered.\<close>

fun register_logs :: "string \<Rightarrow> string list \<Rightarrow> world \<Rightarrow> world" where
  "register_logs folder [] w = w"
| "register_logs folder (file # rest) w =
     register_logs folder rest
       (if drop (length file - 4) file = ''.log''
        then w\<lparr>w_db_added := w_db_added w @ [folder @ ''/'' @ take (length file - 4) file]\<rparr>
        else w)"

text \<open>\<^verbatim>\<open>path.split('/')[-1]\<close>: what follows the last slash.\<close>

definition basename :: "string \<Rightarrow> string" where
  "basename path = rev (takeWhile (\<lambda>x. x \<noteq> CHR ''/'') (rev path))"

text \<open>
  Lines 344 to 360: the single file. The dictionary \<^verbatim>\<open>line\<close> gets its type from the
  name of the file, once; \<^verbatim>\<open>read_lines_delay\<close> is 0 from the constructor and becomes
  0.02 seconds (20 milliseconds) for an Argus file.
\<close>

definition single_file :: "string \<Rightarrow> string list \<Rightarrow> world \<Rightarrow> world" where
  "single_file input_information file_stream w =
     (let (line, h) = alloc (w_heap w) (PDict []);
          w1 = w\<lparr>w_heap := h\<rparr>;
          headers_line = basename input_information
      in if py_in ''binetflow'' headers_line \<or> py_in ''argus'' headers_line then
           file_loop 20 line file_stream
             (w1\<lparr>w_heap := setitem (w_heap w1) line ''type'' (PStr ''argus'')\<rparr>)
         else if py_in ''log'' headers_line then
           file_loop 0 line file_stream
             (w1\<lparr>w_heap := setitem (w_heap w1) line ''type'' (PStr ''zeek'')\<rparr>)
         else file_loop 0 line file_stream w1)"

text \<open>The result of \<^verbatim>\<open>read_zeek_files\<close>, back in the world of \<^verbatim>\<open>run\<close>.\<close>

definition world_of_tailer :: "world \<Rightarrow> nat \<Rightarrow> tailer \<Rightarrow> world" where
  "world_of_tailer w n s =
     w\<lparr>w_profilerqueue := profilerqueue s, w_heap := heap s, w_lines := n,
       w_sleeps := sleeps s, w_clock_calls := clock_calls s, w_db_calls := db_calls s\<rparr>"

definition tail_zeek :: "nat \<Rightarrow> env \<Rightarrow> int \<Rightarrow> world \<Rightarrow> (error + world) option" where
  "tail_zeek fuel E bro_timeout w =
     (case read_zeek_files fuel E bro_timeout (w_profilerqueue w) (w_heap w)
             (w_clock_calls w) (w_db_calls w) (w_sleeps w) of
        None \<Rightarrow> None
      | Some (Inl e) \<Rightarrow> Some (Inl e)
      | Some (Inr (n, s)) \<Rightarrow> Some (Inr (world_of_tailer w n s)))"

text \<open>
  \<^verbatim>\<open>run\<close>, lines 296 to 470. \<open>None\<close>: a reading loop is still running after \<open>fuel\<close> passes.
  An exception raised in the body reaches the handler of \<^verbatim>\<open>Exception\<close>, which ends the
  process with \<^verbatim>\<open>sys.exit(1)\<close>. The sentinel of line 362 closes the branch of
  \<^verbatim>\<open>input_type == 'file'\<close>.
\<close>

definition run :: "nat \<Rightarrow> env \<Rightarrow> string \<Rightarrow> string \<Rightarrow> outcome option" where
  "run fuel E input_type input_information =
     (let w0 = init_world in
      if input_type = ''file'' then
        (let r =
           (if input_information = [] \<or> input_information = ''-'' then
              let (line, h) = alloc (w_heap w0) (PDict []);
                  w1 = w0\<lparr>w_heap := setitem h line ''type'' (PStr ''stdin'')\<rparr>
              in Some (Inr (stdin_loop line (stdin E) w1))
            else if isdir E input_information then
              tail_zeek fuel E 1
                (register_logs input_information (listdir E input_information) w0)
            else
              (case disk E 0 input_information of
                 None \<Rightarrow> Some (Inl FileNotFoundError)
               | Some file_stream \<Rightarrow> Some (Inr (single_file input_information file_stream w0))))
         in case r of
              None \<Rightarrow> None
            | Some (Inl e) \<Rightarrow> Some (Exited 1)
            | Some (Inr w) \<Rightarrow>
                Some (Returned (PBool True)
                        (w\<lparr>w_profilerqueue := w_profilerqueue w @ [QStr ''stop'']\<rparr>)))
      else if input_type = ''nfdump'' then
        (case read_nfdump_file fuel E 10 (w_profilerqueue w0) (w_heap w0)
                (w_clock_calls w0) (w_sleeps w0) of
           None \<Rightarrow> None
         | Some (n, s) \<Rightarrow>
             Some (Returned PNone
                     (w0\<lparr>w_profilerqueue := nf_profilerqueue s, w_heap := nf_heap s,
                         w_lines := n, w_sleeps := nf_sleeps s,
                         w_clock_calls := nf_clock_calls s\<rparr>)))
      else if input_type = ''pcap'' \<or> input_type = ''interface'' then
        (if input_type = ''pcap'' \<and> input_information = [] then Some (Exited 1)
         else
           let bro_timeout = (if input_type = ''interface'' then 9999999999999999 else 30)
           in (case tail_zeek fuel E bro_timeout (w0\<lparr>w_sleeps := w_sleeps w0 @ [3000]\<rparr>) of
                 None \<Rightarrow> None
               | Some (Inl e) \<Rightarrow> Some (Exited 1)
               | Some (Inr w) \<Rightarrow> Some (Returned (PBool True) w)))
      else Some (Returned PNone w0))"

section \<open>Notions used in the statements\<close>

text \<open>
  The cached timestamps are pairwise comparable: Python's \<^verbatim>\<open><\<close> raises for no two heads
  of different files.
\<close>

definition comparable :: "(string \<times> pyval) list \<Rightarrow> bool" where
  "comparable d =
     (\<forall>x\<in>set d. \<forall>y\<in>set d. fst x \<noteq> fst y \<longrightarrow> (\<exists>b. py_lt (snd x) (snd y) = Inr b))"

text \<open>
  The two dictionaries of heads, \<^verbatim>\<open>time_last_lines\<close> and \<^verbatim>\<open>cache_lines\<close>, hold the same
  file names in the same order, each of them once.
\<close>

definition tailer_inv :: "tailer \<Rightarrow> bool" where
  "tailer_inv s =
     (distinct (map fst (time_last_lines s))
      \<and> map fst (cache_lines s) = map fst (time_last_lines s))"

text \<open>The string and the number that a timestamp is, as sorting keys.\<close>

definition str_of :: "pyval \<Rightarrow> string" where
  "str_of v = (case v of PStr s \<Rightarrow> s | _ \<Rightarrow> [])"

definition rat_of :: "pyval \<Rightarrow> rat" where
  "rat_of v = (case num_of v of Some r \<Rightarrow> r | None \<Rightarrow> 0)"

text \<open>The source stem of what is on the queue: the \<^verbatim>\<open>type\<close> field of the record.\<close>

definition record_type :: "store \<Rightarrow> qitem \<Rightarrow> string option" where
  "record_type h q =
     (case q of
        QObj a \<Rightarrow> (case getitem h a ''type'' of Some (PStr t) \<Rightarrow> Some t | _ \<Rightarrow> None)
      | QStr x \<Rightarrow> None)"

text \<open>
  Only files with flows: no ignored file has a handle, every cached line and every
  record on the profiler queue carries, as its type, the name of a file that is not
  ignored.
\<close>

definition flows_only :: "tailer \<Rightarrow> bool" where
  "flows_only s =
     ((\<forall>k\<in>set (map fst (open_file_handlers s)). \<not> ignored_file k)
      \<and> (\<forall>(k, a)\<in>set (cache_lines s). record_type (heap s) (QObj a) = Some k \<and> \<not> ignored_file k)
      \<and> (\<forall>q\<in>set (profilerqueue s). \<exists>k. record_type (heap s) q = Some k \<and> \<not> ignored_file k))"

text \<open>The state of a loop that is running or was left; none after an exception.\<close>

definition state_of :: "'a progress \<Rightarrow> 'a option" where
  "state_of p = (case p of Running s \<Rightarrow> Some s | Done s \<Rightarrow> Some s | Raised e \<Rightarrow> None)"

definition finished :: "'a progress \<Rightarrow> bool" where
  "finished p = (case p of Done s \<Rightarrow> True | _ \<Rightarrow> False)"

text \<open>
  What the consumer finds when it follows a reference on the queue into the store, and
  the whole queue of a run that returned, read that way at the end of the run.
\<close>

definition deref :: "store \<Rightarrow> qitem \<Rightarrow> pyval" where
  "deref h q =
     (case q of
        QObj a \<Rightarrow> (if a < length h then h ! a else PNone)
      | QStr x \<Rightarrow> PStr x)"

definition delivered :: "outcome option \<Rightarrow> pyval list option" where
  "delivered r =
     (case r of
        Some (Returned v w) \<Rightarrow> Some (map (deref (w_heap w)) (w_profilerqueue w))
      | _ \<Rightarrow> None)"

text \<open>The file names of line 347.\<close>

definition argus_name :: "string \<Rightarrow> bool" where
  "argus_name path = (py_in ''binetflow'' (basename path) \<or> py_in ''argus'' (basename path))"

section \<open>Scenarios\<close>

text \<open>
  Concrete environments on which the model is evaluated. \<open>example_loads\<close> is
  \<^verbatim>\<open>json.loads\<close> on the lines that occur in them: three JSON objects; every other line
  used below (a tab-separated line, a comment, a blank line, a comma-separated line)
  is not JSON. A scenario has a fixed catalogue and fixed files; \<open>first_fill\<close> is the
  state after the \<^verbatim>\<open>for\<close> loop of the first pass of the tailer.
\<close>

definition example_loads :: "string \<Rightarrow> pyval option" where
  "example_loads l =
     (if l = ''{\"ts\":7}\<newline>'' then Some (PDict [(''ts'', PNum 7)])
      else if l = ''{\"ts\":3}\<newline>'' then Some (PDict [(''ts'', PNum 3)])
      else if l = ''{\"ts\":5}\<newline>'' then Some (PDict [(''ts'', PNum 5)])
      else if l = ''{\"uid\":\"C1\"}\<newline>'' then Some (PDict [(''uid'', PStr ''C1'')])
      else None)"

definition seconds :: "nat \<Rightarrow> int" where
  "seconds n = int n * 1000000"

definition scenario ::
  "(nat \<Rightarrow> int) \<Rightarrow> string list \<Rightarrow> (string \<times> string list) list \<Rightarrow> env" where
  "scenario clk catalogue files =
     \<lparr>clock = clk,
      get_all_zeek_file = (\<lambda>n. catalogue),
      disk = (\<lambda>p. map_of files),
      json_loads = example_loads,
      stdin = [],
      isdir = (\<lambda>path. False),
      listdir = (\<lambda>path. [])\<rparr>"

definition first_fill :: "env \<Rightarrow> tailer" where
  "first_fill E =
     (let s = init_tailer E [] [] 0 0 []
      in case for_files E s (zeek_files s) of Inr s' \<Rightarrow> s' | Inl e \<Rightarrow> s)"

definition stems_sent :: "(error + nat \<times> tailer) option \<Rightarrow> string option list option" where
  "stems_sent r =
     (case r of
        Some (Inr (n, s)) \<Rightarrow> Some (map (record_type (heap s)) (profilerqueue s))
      | _ \<Rightarrow> None)"

definition records_sent :: "(error + nat \<times> tailer) option \<Rightarrow> pyval list option" where
  "records_sent r =
     (case r of
        Some (Inr (n, s)) \<Rightarrow> Some (map (deref (heap s)) (profilerqueue s))
      | _ \<Rightarrow> None)"

text \<open>
  Two files with one line each, both with timestamp 7; and a catalogue in the order of
  the stems, where the line with timestamp 7 of \<^verbatim>\<open>a.log\<close> comes after one with timestamp 5.
\<close>

definition tie_scenario :: "string list \<Rightarrow> env" where
  "tie_scenario catalogue =
     scenario seconds catalogue
       [(''a.log'', [''{\"ts\":7}\<newline>'']), (''b.log'', [''{\"ts\":7}\<newline>''])]"

definition late_tie_scenario :: env where
  "late_tie_scenario =
     scenario seconds [''a'', ''b'']
       [(''a.log'', [''{\"ts\":5}\<newline>'', ''{\"ts\":7}\<newline>'']),
        (''b.log'', [''{\"ts\":7}\<newline>''])]"

text \<open>Timestamps 7 and 3; a JSON line without \<^verbatim>\<open>ts\<close> next to one with timestamp 7.\<close>

definition merge_scenario :: env where
  "merge_scenario =
     scenario seconds [''dns'', ''conn'']
       [(''dns.log'', [''{\"ts\":7}\<newline>'']), (''conn.log'', [''{\"ts\":3}\<newline>''])]"

definition zero_scenario :: env where
  "zero_scenario =
     scenario seconds [''conn'', ''smb'']
       [(''conn.log'', [''{\"ts\":7}\<newline>'']), (''smb.log'', [''{\"uid\":\"C1\"}\<newline>''])]"

text \<open>A JSON line without \<^verbatim>\<open>ts\<close> next to a tab-separated line with first field 10.\<close>

definition mixed_scenario :: env where
  "mixed_scenario =
     scenario seconds [''smb'', ''conn'']
       [(''smb.log'', [''{\"uid\":\"C1\"}\<newline>'']),
        (''conn.log'', [''10'' @ [CHR 0x09] @ ''foo\<newline>''])]"

text \<open>A catalogue with two ignored stems, whose files hold lines like any other.\<close>

definition weird_scenario :: env where
  "weird_scenario =
     scenario seconds [''weird'', ''conn'', ''d/stats'']
       [(''weird.log'', [''{\"ts\":3}\<newline>'']),
        (''conn.log'', [''{\"ts\":7}\<newline>'']),
        (''d/stats.log'', [''{\"ts\":3}\<newline>''])]"

text \<open>A file with one blank line, an empty file, a file with one comment line.\<close>

definition blank_scenario :: env where
  "blank_scenario = scenario seconds [''x''] [(''x.log'', [''\<newline>''])]"

definition eof_scenario :: env where
  "eof_scenario = scenario seconds [''x''] [(''x.log'', [])]"

definition comment_scenario :: "(nat \<Rightarrow> int) \<Rightarrow> env" where
  "comment_scenario clk = scenario clk [''x''] [(''x.log'', [''#fields ts uid\<newline>''])]"

text \<open>
  Clocks: one that reads 10 seconds at the first read and 9 seconds at the next call (the
  wall clock was set back by a second), one whose second reading comes more than a day
  after the first, and one that advances 31 seconds from call to call.
\<close>

definition backstep_clock :: "nat \<Rightarrow> int" where
  "backstep_clock n = (if n = 0 then 0 else if n = 1 then seconds 10 else seconds 9)"

definition longgap_clock :: "nat \<Rightarrow> int" where
  "longgap_clock n = (if n = 0 then 0 else seconds (86400 + n))"

definition pcap_clock :: "nat \<Rightarrow> int" where
  "pcap_clock n = seconds (31 * n)"

text \<open>
  The scenarios of the specification: two files to merge, a file with a header, a folder
  of empty files. \<open>quarters\<close> is a clock that advances a quarter of a second from call
  to call.
\<close>

definition quarters :: "nat \<Rightarrow> int" where
  "quarters n = int n * 250000"

definition three_line_scenario :: env where
  "three_line_scenario =
     scenario seconds [''conn'', ''dns'']
       [(''conn.log'', [''{\"ts\":3}\<newline>'', ''{\"ts\":7}\<newline>'']),
        (''dns.log'', [''{\"ts\":5}\<newline>''])]"

definition header_scenario :: env where
  "header_scenario =
     (scenario quarters [''logs/x'']
        [(''logs/x.log'', [''#header\<newline>'', ''10'' @ [CHR 0x09] @ ''foo\<newline>''])])
       \<lparr>isdir := (\<lambda>path. path = ''logs''), listdir := (\<lambda>path. [''x.log''])\<rparr>"

definition folder_scenario :: env where
  "folder_scenario =
     (scenario seconds [''logs/conn'', ''logs/dns''] [(''logs/conn.log'', []), (''logs/dns.log'', [])])
       \<lparr>isdir := (\<lambda>path. path = ''logs''),
        listdir := (\<lambda>path. [''conn.log'', ''notes.txt'', ''dns.log''])\<rparr>"

definition registered :: "outcome option \<Rightarrow> string list option" where
  "registered r = (case r of Some (Returned v w) \<Rightarrow> Some (w_db_added w) | _ \<Rightarrow> None)"

text \<open>No log file at all; lines on the standard input; a single file.\<close>

definition idle_scenario :: "(nat \<Rightarrow> int) \<Rightarrow> env" where
  "idle_scenario clk = scenario clk [] []"

definition stdin_scenario :: "string list \<Rightarrow> env" where
  "stdin_scenario ls = (scenario seconds [] [])\<lparr>stdin := ls\<rparr>"

definition file_scenario :: "string \<Rightarrow> string list \<Rightarrow> env" where
  "file_scenario path ls = scenario seconds [] [(path, ls)]"

text \<open>Unfolding the loop for a given number of passes.\<close>

lemma zeek_loop_unfold:
  "zeek_loop (numeral k) E bro_timeout s =
     (case pass E bro_timeout s of
        Inl e \<Rightarrow> Raised e
      | Inr (True, s') \<Rightarrow> Done s'
      | Inr (False, s') \<Rightarrow> zeek_loop (pred_numeral k) E bro_timeout s')"
  by (simp add: numeral_eq_Suc)

lemmas tailer_defs =
  read_zeek_files_def init_tailer_def pass_def for_body_def get_handler_def ignored_file_def
  readline_def parse_line_def alloc_def check_timeout_def emit_def py_sorted_def refresh_def
  timedelta_seconds_def read_next_def touch_def classify_def cache_line_def
  getitem_def record_type_def Let_def zeek_loop_unfold

lemmas scenario_defs =
  scenario_def example_loads_def seconds_def first_fill_def stems_sent_def state_of_def
  deref_def delivered_def

lemmas run_defs =
  run_def init_world_def tail_zeek_def world_of_tailer_def single_file_def basename_def
  setitem_def

section \<open>The scenarios of the specification\<close>

text \<open>
  The model on the end-to-end scenarios of the specification: the lines of two files
  are merged by timestamp; a header line is skipped and the line after it is sent with
  the stem as type; a folder whose files are empty yields the sentinel only, after its
  \<^verbatim>\<open>.log\<close> files were registered.
\<close>

lemma two_file_merge:
  "stems_sent (read_zeek_files 5 three_line_scenario 1 [] [] 0 0 [])
     = Some [Some ''conn'', Some ''dns'', Some ''conn'']"
  by (simp add: three_line_scenario_def tailer_defs scenario_defs)

lemma header_is_skipped:
  "delivered (run 6 header_scenario ''file'' ''logs'')
     = Some [PDict [(''type'', PStr ''logs/x''),
                    (''data'', PStr (''10'' @ [CHR 0x09] @ ''foo\<newline>''))],
             PStr ''stop'']"
  by (simp add: header_scenario_def quarters_def run_defs tailer_defs scenario_defs)

lemma empty_folder_quiescence:
  "delivered (run 2 folder_scenario ''file'' ''logs'') = Some [PStr ''stop'']
   \<and> registered (run 2 folder_scenario ''file'' ''logs'') = Some [''logs/conn'', ''logs/dns'']"
  by (simp add: folder_scenario_def registered_def run_defs tailer_defs scenario_defs)

section \<open>The first of the sorted keys\<close>

text \<open>
  Where \<^verbatim>\<open><\<close> on the values agrees with a linear order on keys, the sort of the model is
  the stable insertion sort of the library.
\<close>

lemma insert_by_keyed:
  fixes f :: "pyval \<Rightarrow> 'b::linorder"
  assumes "\<forall>y\<in>set ys. py_lt (snd y) (snd x) = Inr (f (snd y) < f (snd x))"
  shows "insert_by x ys = Inr (insort_key (\<lambda>p. f (snd p)) x ys)"
  using assms by (induction ys) (auto simp: not_less split: bool.splits)

lemma sort_items_keyed:
  fixes f :: "pyval \<Rightarrow> 'b::linorder"
  assumes "\<forall>x\<in>set xs. \<forall>y\<in>set xs. py_lt (snd y) (snd x) = Inr (f (snd y) < f (snd x))"
  shows "sort_items xs = Inr (sort_key (\<lambda>p. f (snd p)) xs)"
  using assms
proof (induction xs)
  case Nil
  then show ?case by simp
next
  case (Cons x xs)
  have "sort_items xs = Inr (sort_key (\<lambda>p. f (snd p)) xs)"
    using Cons by simp
  moreover have "insert_by x (sort_key (\<lambda>p. f (snd p)) xs) = Inr (insort_key (\<lambda>p. f (snd p)) x (sort_key (\<lambda>p. f (snd p)) xs))"
    by (rule insert_by_keyed) (use Cons.prems in simp)
  ultimately show ?case by simp
qed

text \<open>The head of a stable sort: the first of the entries with the least key.\<close>

lemma sort_key_head:
  fixes g :: "'a \<Rightarrow> 'b::linorder"
  assumes "sort_key g xs = z # zs"
  shows "\<exists>pre post. xs = pre @ z # post \<and> (\<forall>u\<in>set pre. g z < g u) \<and> (\<forall>u\<in>set post. g z \<le> g u)"
proof -
  have srt: "sorted (map g (z # zs))"
    using sorted_sort_key [of g xs] assms by simp
  have setz: "set (z # zs) = set xs"
    using set_sort [of g xs] assms by simp
  have least: "\<forall>u\<in>set xs. g z \<le> g u"
    using srt setz by auto
  have "filter (\<lambda>y. g y = g z) xs = filter (\<lambda>y. g y = g z) (z # zs)"
    using sort_key_stable [of g "g z" xs] assms by simp
  then have "filter (\<lambda>y. g y = g z) xs = z # filter (\<lambda>y. g y = g z) zs"
    by simp
  then obtain pre post where xs: "xs = pre @ z # post" and pre: "\<forall>u\<in>set pre. g u \<noteq> g z"
    by (auto simp: filter_eq_Cons_iff)
  have "\<forall>u\<in>set pre. g z < g u"
    using pre least xs by (auto simp: less_le)
  moreover have "\<forall>u\<in>set post. g z \<le> g u"
    using least xs by auto
  ultimately show ?thesis using xs by blast
qed

lemma py_lt_num: "num_of a = Some x \<Longrightarrow> num_of b = Some y \<Longrightarrow> py_lt a b = Inr (x < y)"
  by (cases a; cases b) auto

lemma py_lt_Inr_cases:
  "py_lt a b = Inr r \<Longrightarrow>
     (\<exists>s t. a = PStr s \<and> b = PStr t) \<or> (\<exists>x y. num_of a = Some x \<and> num_of b = Some y)"
  by (cases a; cases b) (auto split: if_splits)

lemma py_lt_not_both: "py_lt a b = Inr True \<Longrightarrow> py_lt b a \<noteq> Inr True"
  by (cases a; cases b) (auto split: if_splits)

lemma py_lt_irrefl: "py_lt a a \<noteq> Inr True"
  by (cases a) (auto split: if_splits)

text \<open>
  Comparable heads are a single head, or all strings, or all numbers: a number and a
  string never compare.
\<close>

lemma comparable_cases:
  assumes "distinct (map fst d)" and "comparable d"
  shows "(\<exists>x. d = [] \<or> d = [x])
         \<or> (\<forall>x\<in>set d. \<exists>s. snd x = PStr s)
         \<or> (\<forall>x\<in>set d. \<exists>r. num_of (snd x) = Some r)"
proof (cases d)
  case Nil
  then show ?thesis by simp
next
  case (Cons x xs)
  show ?thesis
  proof (cases xs)
    case Nil
    with Cons show ?thesis by simp
  next
    case (Cons y ys)
    have other: "\<forall>z\<in>set xs. \<exists>b. py_lt (snd x) (snd z) = Inr b"
    proof
      fix z assume z: "z \<in> set xs"
      have "fst x \<notin> fst ` set xs"
        using assms(1) \<open>d = x # xs\<close> by simp
      then have "fst x \<noteq> fst z"
        using z by (metis imageI)
      moreover have "x \<in> set d" and "z \<in> set d"
        using z \<open>d = x # xs\<close> by simp_all
      ultimately show "\<exists>b. py_lt (snd x) (snd z) = Inr b"
        using assms(2) unfolding comparable_def by blast
    qed
    then obtain b where "py_lt (snd x) (snd y) = Inr b"
      using Cons by auto
    then consider (str) s where "snd x = PStr s" | (num) r where "num_of (snd x) = Some r"
      using py_lt_Inr_cases by blast
    then show ?thesis
    proof cases
      case str
      have "\<forall>z\<in>set xs. \<exists>t. snd z = PStr t"
      proof
        fix z assume "z \<in> set xs"
        then obtain b where "py_lt (snd x) (snd z) = Inr b" using other by blast
        then show "\<exists>t. snd z = PStr t"
          using py_lt_Inr_cases [of "snd x" "snd z" b] str by auto
      qed
      then show ?thesis using str \<open>d = x # xs\<close> by auto
    next
      case num
      have "\<forall>z\<in>set xs. \<exists>r. num_of (snd z) = Some r"
      proof
        fix z assume "z \<in> set xs"
        then obtain b where "py_lt (snd x) (snd z) = Inr b" using other by blast
        then show "\<exists>r. num_of (snd z) = Some r"
          using py_lt_Inr_cases [of "snd x" "snd z" b] num by auto
      qed
      then show ?thesis using num \<open>d = x # xs\<close> by auto
    qed
  qed
qed

lemma numeric_comparable:
  assumes "\<forall>u\<in>set d. \<exists>r. num_of (snd u) = Some r"
  shows "comparable d"
  unfolding comparable_def
proof (intro ballI impI)
  fix x y assume "x \<in> set d" "y \<in> set d"
  then obtain r q where "num_of (snd x) = Some r" "num_of (snd y) = Some q"
    using assms by blast
  then have "py_lt (snd x) (snd y) = Inr (r < q)"
    by (rule py_lt_num)
  then show "\<exists>b. py_lt (snd x) (snd y) = Inr b" ..
qed

lemma sort_items_head_keyed:
  fixes f :: "pyval \<Rightarrow> 'b::linorder"
  assumes key: "\<forall>x\<in>set d. \<forall>y\<in>set d. py_lt (snd y) (snd x) = Inr (f (snd y) < f (snd x))"
    and ne: "d \<noteq> []"
  shows "\<exists>z rest pre post. sort_items d = Inr (z # rest) \<and> d = pre @ z # post
           \<and> (\<forall>u\<in>set pre. py_lt (snd z) (snd u) = Inr True)
           \<and> (\<forall>u\<in>set post. py_lt (snd u) (snd z) = Inr False)"
proof -
  let ?g = "\<lambda>p. f (snd p)"
  have srt: "sort_items d = Inr (sort_key ?g d)"
    using key by (rule sort_items_keyed)
  have "sort_key ?g d \<noteq> []"
    using ne length_sort [of ?g d] by (metis length_0_conv)
  then obtain z rest where zr: "sort_key ?g d = z # rest"
    by (cases "sort_key ?g d") auto
  from sort_key_head [OF zr] obtain pre post where d: "d = pre @ z # post"
    and pre: "\<forall>u\<in>set pre. ?g z < ?g u" and post: "\<forall>u\<in>set post. ?g z \<le> ?g u"
    by blast
  have "\<forall>u\<in>set pre. py_lt (snd z) (snd u) = Inr True"
    using key pre d by auto
  moreover have "\<forall>u\<in>set post. py_lt (snd u) (snd z) = Inr False"
    using key post d by (auto simp: not_less)
  ultimately have "sort_items d = Inr (z # rest) \<and> d = pre @ z # post
           \<and> (\<forall>u\<in>set pre. py_lt (snd z) (snd u) = Inr True)
           \<and> (\<forall>u\<in>set post. py_lt (snd u) (snd z) = Inr False)"
    using srt zr d by simp
  then show ?thesis by (intro exI)
qed

lemma sort_items_head:
  assumes dist: "distinct (map fst d)" and cmp: "comparable d" and ne: "d \<noteq> []"
  shows "\<exists>z rest pre post. sort_items d = Inr (z # rest) \<and> d = pre @ z # post
           \<and> (\<forall>u\<in>set pre. py_lt (snd z) (snd u) = Inr True)
           \<and> (\<forall>u\<in>set post. py_lt (snd u) (snd z) = Inr False)"
proof -
  consider (one) x where "d = [x]"
    | (str) "\<forall>x\<in>set d. \<exists>s. snd x = PStr s"
    | (num) "\<forall>x\<in>set d. \<exists>r. num_of (snd x) = Some r"
    using comparable_cases [OF dist cmp] ne by blast
  then show ?thesis
  proof cases
    case one
    then have "sort_items d = Inr (x # []) \<and> d = [] @ x # []
           \<and> (\<forall>u\<in>set []. py_lt (snd x) (snd u) = Inr True)
           \<and> (\<forall>u\<in>set []. py_lt (snd u) (snd x) = Inr False)" by simp
    then show ?thesis by (intro exI)
  next
    case str
    have "\<forall>x\<in>set d. \<forall>y\<in>set d. py_lt (snd y) (snd x) = Inr (str_of (snd y) < str_of (snd x))"
    proof (intro ballI)
      fix x y assume "x \<in> set d" "y \<in> set d"
      then obtain s t where "snd x = PStr s" "snd y = PStr t"
        using str by blast
      then show "py_lt (snd y) (snd x) = Inr (str_of (snd y) < str_of (snd x))"
        by (simp add: str_of_def)
    qed
    then show ?thesis using ne by (rule sort_items_head_keyed)
  next
    case num
    have "\<forall>x\<in>set d. \<forall>y\<in>set d. py_lt (snd y) (snd x) = Inr (rat_of (snd y) < rat_of (snd x))"
    proof (intro ballI)
      fix x y assume "x \<in> set d" "y \<in> set d"
      then obtain r q where "num_of (snd x) = Some r" "num_of (snd y) = Some q"
        using num by blast
      then show "py_lt (snd y) (snd x) = Inr (rat_of (snd y) < rat_of (snd x))"
        by (simp add: py_lt_num rat_of_def)
    qed
    then show ?thesis using ne by (rule sort_items_head_keyed)
  qed
qed

section \<open>Invariants of the tailer\<close>

lemma record_type_grow: "record_type h q = Some k \<Longrightarrow> record_type (h @ [v]) q = Some k"
  by (cases q) (auto simp: record_type_def getitem_def nth_append split: if_splits)

lemma record_type_new:
  "record_type (h @ [PDict [(''type'', PStr k), (''data'', v)]]) (QObj (length h)) = Some k"
  by (simp add: record_type_def getitem_def)

lemma in_update: "x \<in> set (AList.update k v al) \<Longrightarrow> x = (k, v) \<or> x \<in> set al"
  by (induction al) (auto split: if_splits)

lemma in_delete: "x \<in> set (AList.delete k al) \<Longrightarrow> x \<in> set al"
  by (simp add: AList.delete_eq)

lemma cache_line_eq:
  "cache_line s filename timestamp nline =
     s\<lparr>heap := heap s @ [PDict [(''type'', PStr filename), (''data'', nline)]],
       time_last_lines := AList.update filename timestamp (time_last_lines s),
       cache_lines := AList.update filename (length (heap s)) (cache_lines s)\<rparr>"
  by (simp add: cache_line_def alloc_def)

subsection \<open>The two dictionaries of heads have the same keys\<close>

lemma cache_line_inv: "tailer_inv s \<Longrightarrow> tailer_inv (cache_line s filename timestamp nline)"
  by (simp add: tailer_inv_def cache_line_eq update_keys)

lemma classify_inv: "tailer_inv s \<Longrightarrow> classify E s filename l = Inr s' \<Longrightarrow> tailer_inv s'"
  by (auto simp: classify_def cache_line_inv split: sum.splits option.splits)

lemma touch_inv: "tailer_inv s \<Longrightarrow> tailer_inv (touch E s)"
  by (simp add: tailer_inv_def touch_def)

lemma read_next_inv:
  assumes "tailer_inv s" and "read_next E s filename = Inr s'"
  shows "tailer_inv s'"
proof -
  have "\<And>h. tailer_inv (s\<lparr>open_file_handlers := h\<rparr>)"
    using assms(1) by (simp add: tailer_inv_def)
  then show ?thesis
    using assms(2)
    by (auto simp: read_next_def Let_def split: option.splits prod.splits if_splits
             intro: classify_inv touch_inv)
qed

lemma get_handler_inv:
  "tailer_inv s \<Longrightarrow> get_handler E s filename = Inr (Some s1) \<Longrightarrow> tailer_inv s1"
  by (auto simp: get_handler_def tailer_inv_def split: option.splits if_splits)

lemma for_body_inv:
  "tailer_inv s \<Longrightarrow> for_body E s filename = Inr s' \<Longrightarrow> tailer_inv s'"
  by (auto simp: for_body_def split: sum.splits option.splits
           intro: get_handler_inv read_next_inv)

lemma for_files_inv:
  "tailer_inv s \<Longrightarrow> for_files E s fs = Inr s' \<Longrightarrow> tailer_inv s'"
proof (induction fs arbitrary: s)
  case Nil
  then show ?case by simp
next
  case (Cons f fs)
  then show ?case
    by (auto split: sum.splits dest: for_body_inv)
qed

lemma check_timeout_inv:
  "tailer_inv s \<Longrightarrow> check_timeout E bt s = (b, s') \<Longrightarrow> tailer_inv s'"
  by (auto simp: check_timeout_def tailer_inv_def Let_def split: if_splits)

lemma refresh_inv: "tailer_inv s \<Longrightarrow> tailer_inv (refresh E s)"
  by (simp add: tailer_inv_def refresh_def)

lemma emit_inv:
  assumes "tailer_inv s" and "emit E s = Inr s'"
  shows "tailer_inv s'"
proof -
  have sl: "\<And>x. tailer_inv ((refresh E s)\<lparr>sleeps := x\<rparr>)"
    using assms(1) by (simp add: tailer_inv_def refresh_def)
  have del: "\<And>key q n. tailer_inv (refresh E
                     (s\<lparr>profilerqueue := q, lines := n,
                        cache_lines := AList.delete key (cache_lines s),
                        time_last_lines := AList.delete key (time_last_lines s)\<rparr>))"
    using assms(1) by (simp add: tailer_inv_def refresh_def delete_keys distinct_removeAll)
  show ?thesis
    using assms(2) sl del
    by (auto simp: emit_def split: sum.splits list.splits option.splits)
qed

lemma pass_inv:
  assumes "tailer_inv s" and "pass E bt s = Inr (b, s')"
  shows "tailer_inv s'"
proof -
  obtain s1 where s1: "for_files E s (zeek_files s) = Inr s1"
    using assms(2) by (auto simp: pass_def split: sum.splits)
  obtain b2 s2 where s2: "check_timeout E bt s1 = (b2, s2)"
    by (cases "check_timeout E bt s1")
  have i2: "tailer_inv s2"
    using for_files_inv [OF assms(1) s1] s2 by (rule check_timeout_inv)
  show ?thesis
  proof (cases b2)
    case True
    then show ?thesis using assms(2) s1 s2 i2 by (simp add: pass_def)
  next
    case False
    then have "emit E s2 = Inr s'"
      using assms(2) s1 s2 by (auto simp: pass_def split: sum.splits)
    with i2 show ?thesis by (rule emit_inv)
  qed
qed

lemma init_inv: "tailer_inv (init_tailer E q h c d sl)"
  by (simp add: tailer_inv_def init_tailer_def)

lemma zeek_loop_inv:
  "tailer_inv s \<Longrightarrow> state_of (zeek_loop n E bt s) = Some s' \<Longrightarrow> tailer_inv s'"
proof (induction n arbitrary: s)
  case 0
  then show ?case by (simp add: state_of_def)
next
  case (Suc n)
  show ?case
  proof (cases "pass E bt s")
    case (Inl e)
    then show ?thesis using Suc.prems by (simp add: state_of_def)
  next
    case (Inr r)
    obtain b s1 where r: "r = (b, s1)" by (cases r)
    have i1: "tailer_inv s1"
      using Suc.prems(1) Inr r pass_inv by blast
    show ?thesis
    proof (cases b)
      case True
      then show ?thesis using Suc.prems(2) Inr r i1 by (simp add: state_of_def)
    next
      case False
      then have "state_of (zeek_loop n E bt s1) = Some s'"
        using Suc.prems(2) Inr r by simp
      with i1 show ?thesis by (rule Suc.IH)
    qed
  qed
qed

subsection \<open>Only files with flows are opened, cached and sent\<close>

lemma flows_only_handlers:
  "flows_only s \<Longrightarrow> \<not> ignored_file k \<or> k \<in> set (map fst (open_file_handlers s)) \<Longrightarrow>
   flows_only (s\<lparr>open_file_handlers := AList.update k v (open_file_handlers s)\<rparr>)"
  by (auto simp: flows_only_def update_keys)

lemma touch_flows: "flows_only s \<Longrightarrow> flows_only (touch E s)"
  by (simp add: flows_only_def touch_def)

lemma cache_line_flows:
  assumes f: "flows_only s" and ok: "\<not> ignored_file filename"
  shows "flows_only (cache_line s filename timestamp nline)"
proof -
  let ?s' = "cache_line s filename timestamp nline"
  have h: "heap ?s' = heap s @ [PDict [(''type'', PStr filename), (''data'', nline)]]"
    and c: "cache_lines ?s' = AList.update filename (length (heap s)) (cache_lines s)"
    and q: "profilerqueue ?s' = profilerqueue s"
    and o: "open_file_handlers ?s' = open_file_handlers s"
    by (simp_all add: cache_line_eq)
  have c1: "\<forall>k\<in>set (map fst (open_file_handlers ?s')). \<not> ignored_file k"
    using f o by (simp add: flows_only_def)
  have c2: "\<forall>(k, a)\<in>set (cache_lines ?s'). record_type (heap ?s') (QObj a) = Some k \<and> \<not> ignored_file k"
  proof (clarify)
    fix k a assume "(k, a) \<in> set (cache_lines ?s')"
    then have "(k, a) = (filename, length (heap s)) \<or> (k, a) \<in> set (cache_lines s)"
      using c in_update by metis
    then show "record_type (heap ?s') (QObj a) = Some k \<and> \<not> ignored_file k"
    proof
      assume "(k, a) = (filename, length (heap s))"
      then show ?thesis using ok h by (simp add: record_type_new)
    next
      assume "(k, a) \<in> set (cache_lines s)"
      then have "record_type (heap s) (QObj a) = Some k \<and> \<not> ignored_file k"
        using f by (auto simp: flows_only_def)
      then show ?thesis using h by (simp add: record_type_grow)
    qed
  qed
  have c3: "\<forall>q\<in>set (profilerqueue ?s'). \<exists>k. record_type (heap ?s') q = Some k \<and> \<not> ignored_file k"
  proof
    fix x assume "x \<in> set (profilerqueue ?s')"
    then have "x \<in> set (profilerqueue s)" using q by simp
    then obtain k where "record_type (heap s) x = Some k \<and> \<not> ignored_file k"
      using f by (auto simp: flows_only_def)
    then have "record_type (heap ?s') x = Some k \<and> \<not> ignored_file k"
      using h by (simp add: record_type_grow)
    then show "\<exists>k. record_type (heap ?s') x = Some k \<and> \<not> ignored_file k" ..
  qed
  show ?thesis using c1 c2 c3 unfolding flows_only_def by blast
qed

lemma classify_flows:
  "flows_only s \<Longrightarrow> \<not> ignored_file filename \<Longrightarrow> classify E s filename l = Inr s' \<Longrightarrow>
   flows_only s'"
  by (auto simp: classify_def cache_line_flows split: sum.splits option.splits)

lemma read_next_flows:
  assumes f: "flows_only s" and ok: "\<not> ignored_file filename"
    and r: "read_next E s filename = Inr s'"
  shows "flows_only s'"
proof -
  have "\<And>v. flows_only (s\<lparr>open_file_handlers := AList.update filename v (open_file_handlers s)\<rparr>)"
    using f ok by (simp add: flows_only_handlers)
  then show ?thesis
    using r ok
    by (auto simp: read_next_def Let_def split: option.splits prod.splits if_splits
             intro: classify_flows touch_flows)
qed

lemma get_handler_flows:
  assumes "flows_only s" and "get_handler E s filename = Inr (Some s1)"
  shows "flows_only s1 \<and> \<not> ignored_file filename"
proof (cases "map_of (open_file_handlers s) filename")
  case None
  then have ok: "\<not> ignored_file filename"
    and s1: "s1 = s\<lparr>open_file_handlers := AList.update filename 0 (open_file_handlers s)\<rparr>"
    using assms(2) by (auto simp: get_handler_def split: if_splits option.splits)
  show ?thesis using assms(1) ok s1 by (simp add: flows_only_handlers)
next
  case (Some pos)
  then have "s1 = s" using assms(2) by (simp add: get_handler_def)
  moreover have "filename \<in> set (map fst (open_file_handlers s))"
    using Some by (metis map_of_eq_None_iff option.distinct(1) set_map)
  moreover have "\<forall>k\<in>set (map fst (open_file_handlers s)). \<not> ignored_file k"
    using assms(1) by (simp add: flows_only_def)
  ultimately show ?thesis using assms(1) by blast
qed

lemma for_body_flows:
  "flows_only s \<Longrightarrow> for_body E s filename = Inr s' \<Longrightarrow> flows_only s'"
  by (auto simp: for_body_def split: sum.splits option.splits
           dest: get_handler_flows intro: read_next_flows)

lemma for_files_flows:
  "flows_only s \<Longrightarrow> for_files E s fs = Inr s' \<Longrightarrow> flows_only s'"
proof (induction fs arbitrary: s)
  case Nil
  then show ?case by simp
next
  case (Cons f fs)
  then show ?case
    by (auto split: sum.splits dest: for_body_flows)
qed

lemma check_timeout_flows:
  "flows_only s \<Longrightarrow> check_timeout E bt s = (b, s') \<Longrightarrow> flows_only s'"
  by (auto simp: check_timeout_def flows_only_def Let_def split: if_splits)

lemma emit_flows:
  assumes f: "flows_only s" and e: "emit E s = Inr s'"
  shows "flows_only s'"
proof -
  have sl: "\<And>x. flows_only ((refresh E s)\<lparr>sleeps := x\<rparr>)"
    using f by (simp add: flows_only_def refresh_def)
  have del: "flows_only (refresh E
                     (s\<lparr>profilerqueue := profilerqueue s @ [QObj line], lines := n,
                        cache_lines := AList.delete key (cache_lines s),
                        time_last_lines := tl\<rparr>))"
    if "map_of (cache_lines s) key = Some line" for key line n tl
  proof -
    have "(key, line) \<in> set (cache_lines s)"
      using that by (rule map_of_SomeD)
    then have "record_type (heap s) (QObj line) = Some key \<and> \<not> ignored_file key"
      using f by (auto simp: flows_only_def)
    moreover have "\<forall>x\<in>set (AList.delete key (cache_lines s)). x \<in> set (cache_lines s)"
      using in_delete by metis
    ultimately show ?thesis
      using f by (fastforce simp: flows_only_def refresh_def)
  qed
  show ?thesis
    using e sl del
    by (auto simp: emit_def split: sum.splits list.splits option.splits)
qed

lemma pass_flows:
  assumes "flows_only s" and "pass E bt s = Inr (b, s')"
  shows "flows_only s'"
proof -
  obtain s1 where s1: "for_files E s (zeek_files s) = Inr s1"
    using assms(2) by (auto simp: pass_def split: sum.splits)
  obtain b2 s2 where s2: "check_timeout E bt s1 = (b2, s2)"
    by (cases "check_timeout E bt s1")
  have i2: "flows_only s2"
    using for_files_flows [OF assms(1) s1] s2 by (rule check_timeout_flows)
  show ?thesis
  proof (cases b2)
    case True
    then show ?thesis using assms(2) s1 s2 i2 by (simp add: pass_def)
  next
    case False
    then have "emit E s2 = Inr s'"
      using assms(2) s1 s2 by (auto simp: pass_def split: sum.splits)
    with i2 show ?thesis by (rule emit_flows)
  qed
qed

lemma init_flows: "flows_only (init_tailer E [] h c d sl)"
  by (simp add: flows_only_def init_tailer_def)

lemma zeek_loop_flows:
  "flows_only s \<Longrightarrow> state_of (zeek_loop n E bt s) = Some s' \<Longrightarrow> flows_only s'"
proof (induction n arbitrary: s)
  case 0
  then show ?case by (simp add: state_of_def)
next
  case (Suc n)
  show ?case
  proof (cases "pass E bt s")
    case (Inl e)
    then show ?thesis using Suc.prems by (simp add: state_of_def)
  next
    case (Inr r)
    obtain b s1 where r: "r = (b, s1)" by (cases r)
    have i1: "flows_only s1"
      using Suc.prems(1) Inr r pass_flows by blast
    show ?thesis
    proof (cases b)
      case True
      then show ?thesis using Suc.prems(2) Inr r i1 by (simp add: state_of_def)
    next
      case False
      then have "state_of (zeek_loop n E bt s1) = Some s'"
        using Suc.prems(2) Inr r by simp
      with i1 show ?thesis by (rule Suc.IH)
    qed
  qed
qed

section \<open>The emission step\<close>

text \<open>
  With comparable heads the step does not raise: it sends the line cached for the first
  key, in the insertion order of \<^verbatim>\<open>time_last_lines\<close>, among those with the least
  timestamp.
\<close>

lemma emit_head:
  assumes inv: "tailer_inv s" and cmp: "comparable (time_last_lines s)"
    and ne: "time_last_lines s \<noteq> []"
  shows "\<exists>key ts line pre post.
           time_last_lines s = pre @ (key, ts) # post
           \<and> (\<forall>u\<in>set pre. py_lt ts (snd u) = Inr True)
           \<and> (\<forall>u\<in>set post. py_lt (snd u) ts = Inr False)
           \<and> map_of (cache_lines s) key = Some line
           \<and> emit E s = Inr (refresh E
                 (s\<lparr>profilerqueue := profilerqueue s @ [QObj line],
                    lines := Suc (lines s),
                    cache_lines := AList.delete key (cache_lines s),
                    time_last_lines := AList.delete key (time_last_lines s)\<rparr>))"
proof -
  have dist: "distinct (map fst (time_last_lines s))"
    and keys: "map fst (cache_lines s) = map fst (time_last_lines s)"
    using inv by (simp_all add: tailer_inv_def)
  from sort_items_head [OF dist cmp ne] obtain z rest pre post where
    srt: "sort_items (time_last_lines s) = Inr (z # rest)"
    and d: "time_last_lines s = pre @ z # post"
    and pre: "\<forall>u\<in>set pre. py_lt (snd z) (snd u) = Inr True"
    and post: "\<forall>u\<in>set post. py_lt (snd u) (snd z) = Inr False"
    by blast
  have "fst z \<in> set (map fst (cache_lines s))"
    using keys d by simp
  then have "map_of (cache_lines s) (fst z) \<noteq> None"
    by (simp add: map_of_eq_None_iff)
  then obtain line where line: "map_of (cache_lines s) (fst z) = Some line"
    by blast
  have "emit E s = Inr (refresh E
                 (s\<lparr>profilerqueue := profilerqueue s @ [QObj line],
                    lines := Suc (lines s),
                    cache_lines := AList.delete (fst z) (cache_lines s),
                    time_last_lines := AList.delete (fst z) (time_last_lines s)\<rparr>))"
    using srt line by (simp add: emit_def py_sorted_def)
  moreover have "time_last_lines s = pre @ (fst z, snd z) # post"
    using d by simp
  ultimately have "time_last_lines s = pre @ (fst z, snd z) # post
           \<and> (\<forall>u\<in>set pre. py_lt (snd z) (snd u) = Inr True)
           \<and> (\<forall>u\<in>set post. py_lt (snd u) (snd z) = Inr False)
           \<and> map_of (cache_lines s) (fst z) = Some line
           \<and> emit E s = Inr (refresh E
                 (s\<lparr>profilerqueue := profilerqueue s @ [QObj line],
                    lines := Suc (lines s),
                    cache_lines := AList.delete (fst z) (cache_lines s),
                    time_last_lines := AList.delete (fst z) (time_last_lines s)\<rparr>))"
    using pre post line by simp
  then show ?thesis by (intro exI)
qed

text \<open>
  Claim C2. In the multi-file tailer, at every emission step the record put on the
  profiler queue is the cached head whose timestamp is the minimum among all cached
  heads, provided that the cached timestamps are pairwise comparable: the step succeeds,
  appends the line cached for some file to the queue, and no cached head has a
  timestamp below the one of that file. The state is any state in which the two
  dictionaries of heads agree, which \<open>for_files_inv\<close> and \<open>zeek_loop_inv\<close> show for
  every emission step of a run.
\<close>

theorem emitted_head_is_minimum:
  assumes inv: "tailer_inv s" and cmp: "comparable (time_last_lines s)"
    and ne: "time_last_lines s \<noteq> []"
  shows "\<exists>key ts line s'.
           emit E s = Inr s'
           \<and> profilerqueue s' = profilerqueue s @ [QObj line]
           \<and> map_of (cache_lines s) key = Some line
           \<and> map_of (time_last_lines s) key = Some ts
           \<and> (\<forall>k' t'. map_of (time_last_lines s) k' = Some t' \<longrightarrow> py_lt t' ts \<noteq> Inr True)"
proof -
  have dist: "distinct (map fst (time_last_lines s))"
    using inv by (simp add: tailer_inv_def)
  from emit_head [OF inv cmp ne, of E] obtain key ts line pre post where
    d: "time_last_lines s = pre @ (key, ts) # post"
    and pre: "\<forall>u\<in>set pre. py_lt ts (snd u) = Inr True"
    and post: "\<forall>u\<in>set post. py_lt (snd u) ts = Inr False"
    and line: "map_of (cache_lines s) key = Some line"
    and em: "emit E s = Inr (refresh E
                 (s\<lparr>profilerqueue := profilerqueue s @ [QObj line],
                    lines := Suc (lines s),
                    cache_lines := AList.delete key (cache_lines s),
                    time_last_lines := AList.delete key (time_last_lines s)\<rparr>))"
    by blast
  have "(key, ts) \<in> set (time_last_lines s)"
    using d by simp
  then have ts: "map_of (time_last_lines s) key = Some ts"
    by (rule map_of_is_SomeI [OF dist])
  have least: "\<forall>k' t'. map_of (time_last_lines s) k' = Some t' \<longrightarrow> py_lt t' ts \<noteq> Inr True"
  proof (intro allI impI)
    fix k' t' assume "map_of (time_last_lines s) k' = Some t'"
    then have "(k', t') \<in> set (time_last_lines s)"
      by (rule map_of_SomeD)
    then consider "(k', t') \<in> set pre" | "t' = ts" | "(k', t') \<in> set post"
      using d by auto
    then show "py_lt t' ts \<noteq> Inr True"
    proof cases
      case 1
      then have "py_lt ts t' = Inr True" using pre by force
      then show ?thesis by (rule py_lt_not_both)
    next
      case 2
      then show ?thesis by (simp add: py_lt_irrefl)
    next
      case 3
      then have "py_lt t' ts = Inr False" using post by force
      then show ?thesis by simp
    qed
  qed
  have "profilerqueue (refresh E
                 (s\<lparr>profilerqueue := profilerqueue s @ [QObj line],
                    lines := Suc (lines s),
                    cache_lines := AList.delete key (cache_lines s),
                    time_last_lines := AList.delete key (time_last_lines s)\<rparr>))
        = profilerqueue s @ [QObj line]"
    by (simp add: refresh_def)
  with em line ts least show ?thesis by blast
qed

text \<open>Timestamps 7 and 3 are cached, in this order; the theorem applies.\<close>

theorem emitted_head_is_minimum_witness:
  "time_last_lines (first_fill merge_scenario) = [(''dns'', PNum 7), (''conn'', PNum 3)]
   \<and> (\<exists>key ts line s'.
           emit merge_scenario (first_fill merge_scenario) = Inr s'
           \<and> profilerqueue s' = profilerqueue (first_fill merge_scenario) @ [QObj line]
           \<and> map_of (cache_lines (first_fill merge_scenario)) key = Some line
           \<and> map_of (time_last_lines (first_fill merge_scenario)) key = Some ts
           \<and> (\<forall>k' t'. map_of (time_last_lines (first_fill merge_scenario)) k' = Some t'
                  \<longrightarrow> py_lt t' ts \<noteq> Inr True))"
proof -
  have d: "time_last_lines (first_fill merge_scenario) = [(''dns'', PNum 7), (''conn'', PNum 3)]"
    by (simp add: merge_scenario_def tailer_defs scenario_defs)
  have h1: "tailer_inv (first_fill merge_scenario)"
    by (simp add: tailer_inv_def merge_scenario_def tailer_defs scenario_defs)
  have h2: "comparable (time_last_lines (first_fill merge_scenario))"
    by (auto simp: d comparable_def)
  have h3: "time_last_lines (first_fill merge_scenario) \<noteq> []"
    by (simp add: d)
  show ?thesis
    by (intro conjI d emitted_head_is_minimum [OF h1 h2 h3])
qed

text \<open>
  Claim C3 says that among heads with the same smallest timestamp the one of the
  lexicographically smallest stem is sent. The code never looks at the stems. With the
  catalogue listing \<open>b\<close> before \<open>a\<close>, and one line with timestamp 7 in each of
  \<^verbatim>\<open>a.log\<close> and \<^verbatim>\<open>b.log\<close>, the record of \<open>b\<close> is sent first. With the catalogue
  in the order of the stems, and timestamps 5 and 7 in \<^verbatim>\<open>a.log\<close> and 7 in \<^verbatim>\<open>b.log\<close>,
  the second line of \<open>a\<close> is cached after the line of \<open>b\<close>, and of the two heads
  with timestamp 7 the one of \<open>b\<close> is sent first.
\<close>

theorem tie_break_counterexample:
  "stems_sent (read_zeek_files 4 (tie_scenario [''b'', ''a'']) 1 [] [] 0 0 [])
     = Some [Some ''b'', Some ''a'']
   \<and> records_sent (read_zeek_files 5 late_tie_scenario 1 [] [] 0 0 [])
     = Some [PDict [(''type'', PStr ''a''), (''data'', PDict [(''ts'', PNum 5)])],
             PDict [(''type'', PStr ''b''), (''data'', PDict [(''ts'', PNum 7)])],
             PDict [(''type'', PStr ''a''), (''data'', PDict [(''ts'', PNum 7)])]]"
  by (simp add: tie_scenario_def late_tie_scenario_def records_sent_def tailer_defs
        scenario_defs)

text \<open>
  Claim C3, amended. When two or more cached heads share the smallest timestamp, the
  tailer sends the one that was cached first: every head that precedes the chosen one in
  the insertion order of \<^verbatim>\<open>time_last_lines\<close> has a strictly larger timestamp, and no
  head that follows it has a smaller one. In particular, when \<^verbatim>\<open>a.log\<close> and \<^verbatim>\<open>b.log\<close>
  each hold one record with timestamp 7 and the catalogue lists \<open>a\<close> first, the record
  of \<open>a\<close> is sent before that of \<open>b\<close>.
\<close>

theorem tie_goes_to_first_buffered:
  assumes inv: "tailer_inv s" and cmp: "comparable (time_last_lines s)"
    and ne: "time_last_lines s \<noteq> []"
  shows "\<exists>key ts line pre post s'.
           time_last_lines s = pre @ (key, ts) # post
           \<and> (\<forall>u\<in>set pre. py_lt ts (snd u) = Inr True)
           \<and> (\<forall>u\<in>set post. py_lt (snd u) ts = Inr False)
           \<and> map_of (cache_lines s) key = Some line
           \<and> emit E s = Inr s'
           \<and> profilerqueue s' = profilerqueue s @ [QObj line]"
proof -
  from emit_head [OF inv cmp ne, of E] obtain key ts line pre post where
    d: "time_last_lines s = pre @ (key, ts) # post"
    and pre: "\<forall>u\<in>set pre. py_lt ts (snd u) = Inr True"
    and post: "\<forall>u\<in>set post. py_lt (snd u) ts = Inr False"
    and line: "map_of (cache_lines s) key = Some line"
    and em: "emit E s = Inr (refresh E
                 (s\<lparr>profilerqueue := profilerqueue s @ [QObj line],
                    lines := Suc (lines s),
                    cache_lines := AList.delete key (cache_lines s),
                    time_last_lines := AList.delete key (time_last_lines s)\<rparr>))"
    by blast
  have "profilerqueue (refresh E
                 (s\<lparr>profilerqueue := profilerqueue s @ [QObj line],
                    lines := Suc (lines s),
                    cache_lines := AList.delete key (cache_lines s),
                    time_last_lines := AList.delete key (time_last_lines s)\<rparr>))
        = profilerqueue s @ [QObj line]"
    by (simp add: refresh_def)
  with d pre post line em show ?thesis by blast
qed

theorem tie_goes_to_first_buffered_witness:
  "time_last_lines (first_fill (tie_scenario [''a'', ''b''])) = [(''a'', PNum 7), (''b'', PNum 7)]
   \<and> stems_sent (read_zeek_files 4 (tie_scenario [''a'', ''b'']) 1 [] [] 0 0 [])
        = Some [Some ''a'', Some ''b'']
   \<and> (\<exists>key ts line pre post s'.
           time_last_lines (first_fill (tie_scenario [''a'', ''b''])) = pre @ (key, ts) # post
           \<and> (\<forall>u\<in>set pre. py_lt ts (snd u) = Inr True)
           \<and> (\<forall>u\<in>set post. py_lt (snd u) ts = Inr False)
           \<and> map_of (cache_lines (first_fill (tie_scenario [''a'', ''b'']))) key = Some line
           \<and> emit (tie_scenario [''a'', ''b'']) (first_fill (tie_scenario [''a'', ''b''])) = Inr s'
           \<and> profilerqueue s' =
               profilerqueue (first_fill (tie_scenario [''a'', ''b''])) @ [QObj line])"
proof -
  let ?s = "first_fill (tie_scenario [''a'', ''b''])"
  have d: "time_last_lines ?s = [(''a'', PNum 7), (''b'', PNum 7)]"
    by (simp add: tie_scenario_def tailer_defs scenario_defs)
  have run: "stems_sent (read_zeek_files 4 (tie_scenario [''a'', ''b'']) 1 [] [] 0 0 [])
        = Some [Some ''a'', Some ''b'']"
    by (simp add: tie_scenario_def tailer_defs scenario_defs)
  have h1: "tailer_inv ?s"
    by (simp add: tailer_inv_def tie_scenario_def tailer_defs scenario_defs)
  have h2: "comparable (time_last_lines ?s)"
    by (auto simp: d comparable_def)
  have h3: "time_last_lines ?s \<noteq> []"
    by (simp add: d)
  show ?thesis
    by (intro conjI d run tie_goes_to_first_buffered [OF h1 h2 h3])
qed

text \<open>
  Claim C4 says that the comparison of the emission step never raises when numeric and
  textual timestamps are cached together, and that timestamp 0 goes first. With a JSON
  line without \<^verbatim>\<open>ts\<close> (timestamp 0) and a tab-separated line (timestamp \<^verbatim>\<open>'10'\<close>) cached,
  the comparison raises \<^verbatim>\<open>TypeError\<close> and so does \<^verbatim>\<open>read_zeek_files\<close>.
\<close>

theorem mixed_timestamps_counterexample:
  "time_last_lines (first_fill mixed_scenario) = [(''smb'', PNum 0), (''conn'', PStr ''10'')]
   \<and> emit mixed_scenario (first_fill mixed_scenario) = Inl TypeError
   \<and> read_zeek_files 1 mixed_scenario 1 [] [] 0 0 [] = Some (Inl TypeError)"
  by (simp add: mixed_scenario_def tailer_defs scenario_defs)

text \<open>
  Claim C4, amended. For every state in which all cached heads carry numeric timestamps
  that are not negative (the substituted 0 for a missing \<^verbatim>\<open>ts\<close> among them), the
  comparison of the emission step does not raise, and when a head with timestamp 0 is
  cached the record that is sent has timestamp 0.
\<close>

theorem zero_timestamp_first:
  assumes inv: "tailer_inv s"
    and num: "\<forall>u\<in>set (time_last_lines s). \<exists>r. num_of (snd u) = Some r \<and> 0 \<le> r"
    and zero: "\<exists>u\<in>set (time_last_lines s). num_of (snd u) = Some 0"
  shows "\<exists>key ts line s'.
           emit E s = Inr s'
           \<and> profilerqueue s' = profilerqueue s @ [QObj line]
           \<and> map_of (cache_lines s) key = Some line
           \<and> map_of (time_last_lines s) key = Some ts
           \<and> num_of ts = Some 0"
proof -
  have cmp: "comparable (time_last_lines s)"
    using num by (intro numeric_comparable) blast
  have ne: "time_last_lines s \<noteq> []"
    using zero by auto
  have dist: "distinct (map fst (time_last_lines s))"
    using inv by (simp add: tailer_inv_def)
  from emit_head [OF inv cmp ne, of E] obtain key ts line pre post where
    d: "time_last_lines s = pre @ (key, ts) # post"
    and pre: "\<forall>u\<in>set pre. py_lt ts (snd u) = Inr True"
    and post: "\<forall>u\<in>set post. py_lt (snd u) ts = Inr False"
    and line: "map_of (cache_lines s) key = Some line"
    and em: "emit E s = Inr (refresh E
                 (s\<lparr>profilerqueue := profilerqueue s @ [QObj line],
                    lines := Suc (lines s),
                    cache_lines := AList.delete key (cache_lines s),
                    time_last_lines := AList.delete key (time_last_lines s)\<rparr>))"
    by blast
  have mem: "(key, ts) \<in> set (time_last_lines s)"
    using d by simp
  then have ts: "map_of (time_last_lines s) key = Some ts"
    by (rule map_of_is_SomeI [OF dist])
  obtain r where r: "num_of ts = Some r" "0 \<le> r"
    using num mem by fastforce
  obtain u where u: "u \<in> set (time_last_lines s)" "num_of (snd u) = Some 0"
    using zero by blast
  then consider "u \<in> set pre" | "u = (key, ts)" | "u \<in> set post"
    using d by auto
  then have "r = 0"
  proof cases
    case 1
    then have "py_lt ts (snd u) = Inr True" using pre by blast
    moreover have "py_lt ts (snd u) = Inr (r < 0)"
      using r(1) u(2) by (rule py_lt_num)
    ultimately show ?thesis using r(2) by simp
  next
    case 2
    then show ?thesis using r(1) u(2) by simp
  next
    case 3
    then have "py_lt (snd u) ts = Inr False" using post by blast
    moreover have "py_lt (snd u) ts = Inr (0 < r)"
      using u(2) r(1) by (rule py_lt_num)
    ultimately show ?thesis using r(2) by simp
  qed
  moreover have "profilerqueue (refresh E
                 (s\<lparr>profilerqueue := profilerqueue s @ [QObj line],
                    lines := Suc (lines s),
                    cache_lines := AList.delete key (cache_lines s),
                    time_last_lines := AList.delete key (time_last_lines s)\<rparr>))
        = profilerqueue s @ [QObj line]"
    by (simp add: refresh_def)
  ultimately show ?thesis using em line ts r(1) by blast
qed

theorem zero_timestamp_first_witness:
  "time_last_lines (first_fill zero_scenario) = [(''conn'', PNum 7), (''smb'', PNum 0)]
   \<and> (\<exists>key ts line s'.
           emit zero_scenario (first_fill zero_scenario) = Inr s'
           \<and> profilerqueue s' = profilerqueue (first_fill zero_scenario) @ [QObj line]
           \<and> map_of (cache_lines (first_fill zero_scenario)) key = Some line
           \<and> map_of (time_last_lines (first_fill zero_scenario)) key = Some ts
           \<and> num_of ts = Some 0)"
proof -
  let ?s = "first_fill zero_scenario"
  have d: "time_last_lines ?s = [(''conn'', PNum 7), (''smb'', PNum 0)]"
    by (simp add: zero_scenario_def tailer_defs scenario_defs)
  have h1: "tailer_inv ?s"
    by (simp add: tailer_inv_def zero_scenario_def tailer_defs scenario_defs)
  have h2: "\<forall>u\<in>set (time_last_lines ?s). \<exists>r. num_of (snd u) = Some r \<and> 0 \<le> r"
    by (simp add: d)
  have h3: "\<exists>u\<in>set (time_last_lines ?s). num_of (snd u) = Some 0"
    by (simp add: d)
  show ?thesis
    by (intro conjI d zero_timestamp_first [OF h1 h2 h3])
qed

section \<open>Leaving the loop\<close>

text \<open>
  The loop is left only with nothing cached, and only when the \<^verbatim>\<open>seconds\<close> attribute of
  the difference between the clock and the last update has reached the timeout.
\<close>

lemma break_only_when_idle:
  assumes inv: "tailer_inv s" and p: "pass E bro_timeout s = Inr (True, s')"
  shows "cache_lines s' = [] \<and> time_last_lines s' = []
         \<and> bro_timeout \<le> timedelta_seconds
              (clock E (clock_calls s' - 1) - last_updated_file_time s')"
proof -
  obtain s1 where s1: "for_files E s (zeek_files s) = Inr s1"
    using p by (auto simp: pass_def split: sum.splits)
  have i1: "tailer_inv s1"
    using inv s1 by (rule for_files_inv)
  have ct: "check_timeout E bro_timeout s1 = (True, s')"
    using p s1 by (auto simp: pass_def split: prod.splits bool.splits sum.splits)
  then have e: "cache_lines s1 = []"
    and t: "bro_timeout \<le> timedelta_seconds (clock E (clock_calls s1) - last_updated_file_time s1)"
    and s': "s' = s1\<lparr>clock_calls := Suc (clock_calls s1)\<rparr>"
    by (auto simp: check_timeout_def Let_def split: if_splits)
  have "time_last_lines s1 = []"
    using i1 e by (simp add: tailer_inv_def)
  then show ?thesis using e t s' by simp
qed

text \<open>The test that leaves the loop, exactly.\<close>

lemma pass_break_iff:
  "pass E bro_timeout s = Inr (True, s') \<longleftrightarrow>
     (\<exists>s1. for_files E s (zeek_files s) = Inr s1
        \<and> cache_lines s1 = []
        \<and> bro_timeout \<le> timedelta_seconds
              (clock E (clock_calls s1) - last_updated_file_time s1)
        \<and> s' = s1\<lparr>clock_calls := Suc (clock_calls s1)\<rparr>)"
proof
  assume p: "pass E bro_timeout s = Inr (True, s')"
  obtain s1 where s1: "for_files E s (zeek_files s) = Inr s1"
    using p by (auto simp: pass_def split: sum.splits)
  have "check_timeout E bro_timeout s1 = (True, s')"
    using p s1 by (auto simp: pass_def split: prod.splits bool.splits sum.splits)
  then have "cache_lines s1 = []
        \<and> bro_timeout \<le> timedelta_seconds
              (clock E (clock_calls s1) - last_updated_file_time s1)
        \<and> s' = s1\<lparr>clock_calls := Suc (clock_calls s1)\<rparr>"
    by (auto simp: check_timeout_def Let_def split: if_splits)
  with s1 show "\<exists>s1. for_files E s (zeek_files s) = Inr s1
        \<and> cache_lines s1 = []
        \<and> bro_timeout \<le> timedelta_seconds
              (clock E (clock_calls s1) - last_updated_file_time s1)
        \<and> s' = s1\<lparr>clock_calls := Suc (clock_calls s1)\<rparr>"
    by (intro exI [of _ s1]) simp
next
  assume "\<exists>s1. for_files E s (zeek_files s) = Inr s1
        \<and> cache_lines s1 = []
        \<and> bro_timeout \<le> timedelta_seconds
              (clock E (clock_calls s1) - last_updated_file_time s1)
        \<and> s' = s1\<lparr>clock_calls := Suc (clock_calls s1)\<rparr>"
  then show "pass E bro_timeout s = Inr (True, s')"
    by (auto simp: pass_def check_timeout_def Let_def)
qed

text \<open>
  For a difference between 0 and one day the attribute is the number of whole seconds
  elapsed, and the test is the one on the elapsed time.
\<close>

lemma timedelta_seconds_elapsed:
  assumes "0 \<le> us" and "us < 86400 * 1000000"
  shows "(bro_timeout \<le> timedelta_seconds us) = (bro_timeout * 1000000 \<le> us)"
proof -
  have "us div 1000000 < 86400"
    using assms(2) by (simp add: div_less_iff_less_mult)
  moreover have "0 \<le> us div 1000000"
    using assms(1) by (simp add: pos_imp_zdiv_nonneg_iff)
  ultimately have "timedelta_seconds us = us div 1000000"
    by (simp add: timedelta_seconds_def)
  moreover have "(bro_timeout \<le> us div 1000000) = (bro_timeout * 1000000 \<le> us)"
  proof
    assume "bro_timeout \<le> us div 1000000"
    then have "bro_timeout * 1000000 \<le> us div 1000000 * 1000000"
      by simp
    also have "\<dots> = us - us mod 1000000"
      by (simp add: minus_mod_eq_div_mult)
    also have "\<dots> \<le> us"
      by simp
    finally show "bro_timeout * 1000000 \<le> us" .
  next
    assume "bro_timeout * 1000000 \<le> us"
    then have "bro_timeout * 1000000 div 1000000 \<le> us div 1000000"
      by (rule zdiv_mono1) simp
    then show "bro_timeout \<le> us div 1000000"
      by simp
  qed
  ultimately show ?thesis by simp
qed

text \<open>
  Claim C5. The loop of the tailer is left if and only if no file has a cached head
  and no read has succeeded for \<^verbatim>\<open>bro_timeout\<close> seconds. The code compares the
  \<^verbatim>\<open>seconds\<close> attribute of the time difference, which is the difference modulo one
  day. With a timeout of 30 seconds: a comment line is read when the clock shows 10
  seconds and the clock shows 9 seconds at the test, and the loop is left although
  the last read is not 30 seconds old; with nothing read and the clock 86401 seconds
  after the start, the loop is not left although 30 seconds have long passed.
\<close>

theorem quiescence_reads_seconds_attribute:
  "finished (zeek_loop 1 (comment_scenario backstep_clock) 30
               (init_tailer (comment_scenario backstep_clock) [] [] 0 0 []))
   \<and> \<not> finished (zeek_loop 1 (idle_scenario longgap_clock) 30
               (init_tailer (idle_scenario longgap_clock) [] [] 0 0 []))
   \<and> longgap_clock 1 - longgap_clock 0 \<ge> seconds 30"
  by (simp add: comment_scenario_def idle_scenario_def backstep_clock_def longgap_clock_def
        finished_def tailer_defs scenario_defs)

subsection \<open>A timeout of more than a day is never reached\<close>

lemma timedelta_seconds_bound: "timedelta_seconds us < 86400"
  by (simp add: timedelta_seconds_def)

lemma check_timeout_never:
  "86400 \<le> bro_timeout \<Longrightarrow> fst (check_timeout E bro_timeout s) = False"
  using timedelta_seconds_bound [of "clock E (clock_calls s) - last_updated_file_time s"]
  by (simp add: check_timeout_def Let_def)

lemma pass_never_breaks:
  assumes b: "86400 \<le> bro_timeout" and p: "pass E bro_timeout s = Inr (True, s')"
  shows False
proof -
  obtain s1 where s1: "for_files E s (zeek_files s) = Inr s1"
    using p by (auto simp: pass_def split: sum.splits)
  have "check_timeout E bro_timeout s1 = (True, s')"
    using p s1 by (auto simp: pass_def split: prod.splits bool.splits sum.splits)
  then have "fst (check_timeout E bro_timeout s1) = True"
    by simp
  then show False
    using check_timeout_never [OF b, of E s1] by simp
qed

lemma zeek_loop_never_done:
  "86400 \<le> bro_timeout \<Longrightarrow> zeek_loop n E bro_timeout s \<noteq> Done s'"
proof (induction n arbitrary: s)
  case 0
  show ?case by simp
next
  case (Suc n)
  show ?case
  proof (cases "pass E bro_timeout s")
    case (Inl e)
    then show ?thesis by simp
  next
    case (Inr r)
    obtain b s1 where r: "r = (b, s1)" by (cases r)
    show ?thesis
    proof (cases b)
      case True
      then show ?thesis using Inr r pass_never_breaks [OF Suc.prems] by auto
    next
      case False
      then show ?thesis using Inr r Suc.IH [OF Suc.prems] by simp
    qed
  qed
qed

subsection \<open>Reading sets the clock\<close>

text \<open>Getting the handle of a file changes nothing but the dictionary of handles.\<close>

lemma get_handler_frame:
  assumes "get_handler E s filename = Inr (Some s1)"
  shows "s1 = s\<lparr>open_file_handlers := open_file_handlers s1\<rparr>"
  using assms by (auto simp: get_handler_def split: option.splits if_splits)

text \<open>
  Claim C10 counts empty lines among the lines that produce no record and still count
  as activity. A blank line is cached as a record like any other line that is not JSON,
  with itself as timestamp; an empty read, at the end of a file, neither reads the clock
  nor sets \<^verbatim>\<open>last_updated_file_time\<close>.
\<close>

theorem empty_lines_counterexample:
  "cache_lines (first_fill blank_scenario) = [(''x'', 0)]
   \<and> time_last_lines (first_fill blank_scenario) = [(''x'', PStr ''\<newline>'')]
   \<and> cache_lines (first_fill eof_scenario) = []
   \<and> last_updated_file_time (first_fill eof_scenario) = clock eof_scenario 0
   \<and> clock_calls (first_fill eof_scenario) = 1"
  by (simp add: blank_scenario_def eof_scenario_def tailer_defs scenario_defs)

text \<open>
  Claim C10, amended. In the multi-file tailer every read that returns a line (anything
  but the empty string), from a file that was open or is opened for it, sets
  \<^verbatim>\<open>last_updated_file_time\<close> to the clock before the line is classified. Consequently a comment line, which begins with \<^verbatim>\<open>#\<close> and produces no
  record, still counts as activity: the test that follows measures the timeout from that
  read. A read that returns the empty string leaves the clock of the last update as it
  is.
\<close>

theorem every_read_sets_the_clock:
  assumes g: "get_handler E s filename = Inr (Some s1)"
    and h: "map_of (open_file_handlers s1) filename = Some pos"
    and c: "map_of (cache_lines s) filename = None"
    and r: "readline (disk E (passes s) (filename @ ''.log'')) pos = (zeek_line, pos')"
    and b: "for_body E s filename = Inr s'"
  shows "(zeek_line \<noteq> [] \<longrightarrow>
            last_updated_file_time s' = clock E (clock_calls s)
            \<and> clock_calls s' = Suc (clock_calls s))
       \<and> (zeek_line \<noteq> [] \<and> json_loads E zeek_line = None \<and> hd zeek_line = CHR ''#'' \<longrightarrow>
            cache_lines s' = cache_lines s \<and> time_last_lines s' = time_last_lines s
            \<and> profilerqueue s' = profilerqueue s \<and> lines s' = lines s)
       \<and> (zeek_line \<noteq> [] \<and> cache_lines s' = [] \<longrightarrow>
            fst (check_timeout E bro_timeout s') =
              (bro_timeout \<le> timedelta_seconds
                 (clock E (Suc (clock_calls s)) - clock E (clock_calls s))))
       \<and> (zeek_line = [] \<longrightarrow>
            last_updated_file_time s' = last_updated_file_time s
            \<and> clock_calls s' = clock_calls s)"
proof -
  define s2 where "s2 = s1\<lparr>open_file_handlers := AList.update filename pos' (open_file_handlers s1)\<rparr>"
  have fr: "s1 = s\<lparr>open_file_handlers := open_file_handlers s1\<rparr>"
    using g by (rule get_handler_frame)
  have same: "cache_lines s1 = cache_lines s" "passes s1 = passes s"
    "clock_calls s2 = clock_calls s" "last_updated_file_time s2 = last_updated_file_time s"
    "cache_lines s2 = cache_lines s" "time_last_lines s2 = time_last_lines s"
    "profilerqueue s2 = profilerqueue s" "lines s2 = lines s"
    unfolding s2_def by (subst fr, simp)+
  have body: "for_body E s filename =
                (if zeek_line = [] then Inr s2 else classify E (touch E s2) filename zeek_line)"
    using g c h r same(1,2) by (simp add: for_body_def read_next_def s2_def)
  show ?thesis
  proof (cases "zeek_line = []")
    case True
    then have "s' = s2" using body b by simp
    then show ?thesis using True same by simp
  next
    case False
    then have cl: "classify E (touch E s2) filename zeek_line = Inr s'"
      using body b by simp
    have keep: "last_updated_file_time s' = clock E (clock_calls s)
                \<and> clock_calls s' = Suc (clock_calls s)"
      using cl same(3)
      by (auto simp: classify_def cache_line_eq touch_def
               split: sum.splits option.splits)
    have comment: "cache_lines s' = cache_lines s \<and> time_last_lines s' = time_last_lines s
            \<and> profilerqueue s' = profilerqueue s \<and> lines s' = lines s"
      if "json_loads E zeek_line = None" and "hd zeek_line = CHR ''#''"
    proof -
      have "parse_line E zeek_line = Inr None"
        using that False by (cases zeek_line) (simp_all add: parse_line_def)
      then have "s' = touch E s2" using cl by (simp add: classify_def)
      then show ?thesis using same by (simp add: touch_def)
    qed
    have check: "fst (check_timeout E bro_timeout s') =
              (bro_timeout \<le> timedelta_seconds
                 (clock E (Suc (clock_calls s)) - clock E (clock_calls s)))"
      if "cache_lines s' = []"
      using that keep by (simp add: check_timeout_def Let_def)
    show ?thesis using False keep comment check by blast
  qed
qed

theorem every_read_sets_the_clock_witness:
  "\<exists>s'. for_body (comment_scenario seconds)
           (init_tailer (comment_scenario seconds) [] [] 0 0 []) ''x'' = Inr s'
       \<and> last_updated_file_time s' = seconds 1
       \<and> cache_lines s' = []
       \<and> fst (check_timeout (comment_scenario seconds) 30 s') = False"
proof -
  let ?E = "comment_scenario seconds"
  let ?s = "init_tailer ?E [] [] 0 0 []"
  let ?s1 = "?s\<lparr>open_file_handlers := [(''x'', 0)]\<rparr>"
  let ?s' = "touch ?E (?s\<lparr>open_file_handlers := [(''x'', 1)]\<rparr>)"
  have g: "get_handler ?E ?s ''x'' = Inr (Some ?s1)"
    by (simp add: comment_scenario_def tailer_defs scenario_defs)
  have h: "map_of (open_file_handlers ?s1) ''x'' = Some 0"
    by simp
  have c: "map_of (cache_lines ?s) ''x'' = None"
    by (simp add: init_tailer_def)
  have r: "readline (disk ?E (passes ?s) (''x'' @ ''.log'')) 0 = (''#fields ts uid\<newline>'', 1)"
    by (simp add: comment_scenario_def scenario_def readline_def init_tailer_def)
  have b: "for_body ?E ?s ''x'' = Inr ?s'"
    by (simp add: comment_scenario_def tailer_defs scenario_defs)
  have l: "json_loads ?E ''#fields ts uid\<newline>'' = None"
    by (simp add: comment_scenario_def scenario_defs)
  have k: "clock_calls ?s = 1" "clock ?E 1 = 1000000" "clock ?E (Suc (Suc 0)) = 2000000"
    by (simp_all add: comment_scenario_def scenario_def init_tailer_def seconds_def)
  have e: "cache_lines ?s = []"
    by (simp add: init_tailer_def)
  from every_read_sets_the_clock [OF g h c r b, of 30] l k e
  have "last_updated_file_time ?s' = seconds 1 \<and> cache_lines ?s' = []
        \<and> fst (check_timeout ?E 30 ?s') = False"
    by (simp add: seconds_def timedelta_seconds_def)
  with b show ?thesis by (intro exI [of _ ?s']) simp
qed

section \<open>Ignored files\<close>

text \<open>
  Claim C7. For every run of the multi-file tailer, whatever the catalogue holds, at
  any time (after any number of passes, the loop still running or left) every record on
  the profiler queue carries as type a stem that contains none of \<^verbatim>\<open>capture_loss\<close>,
  \<^verbatim>\<open>loaded_scripts\<close>, \<^verbatim>\<open>packet_filter\<close>, \<^verbatim>\<open>stats\<close>, \<^verbatim>\<open>weird\<close>, \<^verbatim>\<open>reporter\<close>.
\<close>

theorem ignored_files_never_emitted:
  assumes "state_of (zeek_loop n E bro_timeout (init_tailer E [] h c d sl)) = Some s"
  shows "\<forall>q\<in>set (profilerqueue s). \<exists>stem. record_type (heap s) q = Some stem
           \<and> (\<forall>x\<in>set [''capture_loss'', ''loaded_scripts'', ''packet_filter'',
                         ''stats'', ''weird'', ''reporter'']. \<not> py_in x stem)"
proof -
  have "flows_only s"
    using init_flows assms by (rule zeek_loop_flows)
  then have "\<forall>q\<in>set (profilerqueue s). \<exists>k. record_type (heap s) q = Some k \<and> \<not> ignored_file k"
    by (simp add: flows_only_def)
  then show ?thesis
    by (simp add: ignored_file_def)
qed

text \<open>The catalogue holds \<open>weird\<close> and \<open>d/stats\<close>; only the line of \<open>conn\<close> is sent.\<close>

theorem ignored_files_never_emitted_witness:
  "get_all_zeek_file weird_scenario 0 = [''weird'', ''conn'', ''d/stats'']
   \<and> (\<exists>s. state_of (zeek_loop 4 weird_scenario 1 (init_tailer weird_scenario [] [] 0 0 [])) = Some s
        \<and> map (record_type (heap s)) (profilerqueue s) = [Some ''conn'']
        \<and> (\<forall>q\<in>set (profilerqueue s). \<exists>stem. record_type (heap s) q = Some stem
              \<and> (\<forall>x\<in>set [''capture_loss'', ''loaded_scripts'', ''packet_filter'',
                            ''stats'', ''weird'', ''reporter'']. \<not> py_in x stem)))"
proof -
  have c: "get_all_zeek_file weird_scenario 0 = [''weird'', ''conn'', ''d/stats'']"
    by (simp add: weird_scenario_def scenario_def)
  have "\<exists>s. state_of (zeek_loop 4 weird_scenario 1 (init_tailer weird_scenario [] [] 0 0 [])) = Some s
        \<and> map (record_type (heap s)) (profilerqueue s) = [Some ''conn'']"
    by (simp add: weird_scenario_def tailer_defs scenario_defs)
  then obtain s where s: "state_of (zeek_loop 4 weird_scenario 1 (init_tailer weird_scenario [] [] 0 0 [])) = Some s"
    and q: "map (record_type (heap s)) (profilerqueue s) = [Some ''conn'']"
    by (elim exE conjE)
  show ?thesis
    by (intro conjI c exI [of _ s] s q ignored_files_never_emitted [OF s])
qed

section \<open>The nfdump reader never leaves its loop\<close>

text \<open>
  The only \<^verbatim>\<open>break\<close> is under the test \<^verbatim>\<open>nfdump_line is None\<close>, and \<^verbatim>\<open>readline\<close> returns a
  string.
\<close>

lemma nf_pass_continues: "fst (nf_pass E t s) = False"
  by (auto simp: nf_pass_def readline_value_def Let_def
           split: option.splits prod.splits pyval.splits list.splits)

lemma nf_loop_running: "\<exists>s'. nf_loop n E t s = Running s'"
proof (induction n arbitrary: s)
  case 0
  show ?case by simp
next
  case (Suc n)
  obtain s1 where "nf_pass E t s = (False, s1)"
    using nf_pass_continues [of E t s] by (cases "nf_pass E t s") auto
  then show ?case using Suc [of s1] by simp
qed

text \<open>
  Claim C6. In nfdump mode, once the file has been opened, if no new line arrives for
  the timeout of 10 seconds the reader terminates and returns its count of lines. The
  reader of the code returns for no environment, no timeout and no number of passes.
\<close>

theorem nfdump_reader_never_returns:
  "read_nfdump_file fuel E nfdump_timeout q h c sl = None"
proof -
  obtain s' where "nf_loop fuel E nfdump_timeout (init_nfreader E q h c sl) = Running s'"
    using nf_loop_running by blast
  then show ?thesis by (simp add: read_nfdump_file_def)
qed

section \<open>The single file and the standard input\<close>

lemma getitem_setitem_other:
  "k \<noteq> k' \<Longrightarrow> getitem (setitem h a k v) a k' = getitem h a k'"
  by (auto simp: getitem_def setitem_def update_conv' split: pyval.splits)

lemma file_loop_queue:
  "w_profilerqueue (file_loop d line ls w) = w_profilerqueue w @ replicate (length ls) (QObj line)"
  by (induction ls arbitrary: w) (simp_all add: replicate_app_Cons_same)

lemma file_loop_sleeps:
  "w_sleeps (file_loop d line ls w) = w_sleeps w @ replicate (length ls) d"
  by (induction ls arbitrary: w) (simp_all add: replicate_app_Cons_same)

lemma file_loop_type:
  "getitem (w_heap (file_loop d line ls w)) line ''type'' = getitem (w_heap w) line ''type''"
  by (induction ls arbitrary: w) (simp_all add: getitem_setitem_other)

text \<open>
  Claim C8 gives type \<^verbatim>\<open>zeek\<close> to the records of every file whose name holds neither
  \<^verbatim>\<open>binetflow\<close> nor \<^verbatim>\<open>argus\<close>. The record of a line of \<^verbatim>\<open>data/flows.txt\<close> has no type.
\<close>

theorem untyped_file_counterexample:
  "delivered (run 0 (file_scenario ''data/flows.txt'' [''1,2,3\<newline>'']) ''file'' ''data/flows.txt'')
     = Some [PDict [(''data'', PStr ''1,2,3\<newline>'')], PStr ''stop'']"
  by (simp add: file_scenario_def run_defs tailer_defs scenario_defs)

text \<open>
  Claim C8, amended. For input type \<^verbatim>\<open>file\<close> and a regular file, \<^verbatim>\<open>run\<close> returns after
  one record per line and the sentinel; every record is the one dictionary created
  before the loop, whose type is \<^verbatim>\<open>argus\<close> when the base name contains \<^verbatim>\<open>binetflow\<close> or
  \<^verbatim>\<open>argus\<close> (with a sleep of 20 milliseconds before each line), \<^verbatim>\<open>zeek\<close> when it
  otherwise contains \<^verbatim>\<open>log\<close>, and absent for every other base name (with a sleep of 0
  in both these cases).
\<close>

theorem single_file_record_type:
  assumes "input_information \<noteq> []" and "input_information \<noteq> ''-''"
    and "\<not> isdir E input_information"
    and "disk E 0 input_information = Some file_stream"
  shows "\<exists>w. run fuel E ''file'' input_information = Some (Returned (PBool True) w)
           \<and> w_profilerqueue w = replicate (length file_stream) (QObj 0) @ [QStr ''stop'']
           \<and> getitem (w_heap w) 0 ''type'' =
               (if argus_name input_information then Some (PStr ''argus'')
                else if py_in ''log'' (basename input_information) then Some (PStr ''zeek'')
                else None)
           \<and> w_sleeps w =
               replicate (length file_stream) (if argus_name input_information then 20 else 0)"
proof -
  let ?w = "single_file input_information file_stream init_world"
  have r: "run fuel E ''file'' input_information =
             Some (Returned (PBool True)
                    (?w\<lparr>w_profilerqueue := w_profilerqueue ?w @ [QStr ''stop'']\<rparr>))"
    using assms by (simp add: run_def)
  have q: "w_profilerqueue ?w = replicate (length file_stream) (QObj 0)"
    by (simp add: single_file_def alloc_def init_world_def file_loop_queue Let_def)
  have t: "getitem (w_heap ?w) 0 ''type'' =
               (if argus_name input_information then Some (PStr ''argus'')
                else if py_in ''log'' (basename input_information) then Some (PStr ''zeek'')
                else None)"
  proof -
    have a: "getitem [PDict [(''type'', v)]] 0 ''type'' = Some v" for v
      by (simp add: getitem_def)
    have b: "getitem [PDict []] 0 ''type'' = None"
      by (simp add: getitem_def)
    have c: "setitem [PDict []] 0 ''type'' v = [PDict [(''type'', v)]]" for v
      by (simp add: setitem_def)
    show ?thesis
      by (simp add: single_file_def alloc_def init_world_def file_loop_type argus_name_def
            Let_def a b c)
  qed
  have sl: "w_sleeps ?w =
               replicate (length file_stream) (if argus_name input_information then 20 else 0)"
    by (simp add: single_file_def alloc_def init_world_def file_loop_sleeps argus_name_def Let_def)
  show ?thesis using r q t sl by simp
qed

theorem single_file_record_type_witness:
  "\<exists>w. run 0 (file_scenario ''data/conn.log'' [''l1\<newline>'', ''l2\<newline>'']) ''file'' ''data/conn.log''
          = Some (Returned (PBool True) w)
       \<and> w_profilerqueue w = [QObj 0, QObj 0, QStr ''stop'']
       \<and> getitem (w_heap w) 0 ''type'' = Some (PStr ''zeek'')
       \<and> w_sleeps w = [0, 0]"
proof -
  let ?E = "file_scenario ''data/conn.log'' [''l1\<newline>'', ''l2\<newline>'']"
  have h1: "''data/conn.log'' \<noteq> []" and h2: "''data/conn.log'' \<noteq> ''-''" by simp_all
  have h3: "\<not> isdir ?E ''data/conn.log''"
    by (simp add: file_scenario_def scenario_def)
  have h4: "disk ?E 0 ''data/conn.log'' = Some [''l1\<newline>'', ''l2\<newline>'']"
    by (simp add: file_scenario_def scenario_def)
  have n: "\<not> argus_name ''data/conn.log''" and l: "py_in ''log'' (basename ''data/conn.log'')"
    by (simp_all add: argus_name_def basename_def)
  show ?thesis
    using single_file_record_type [OF h1 h2 h3 h4, of 0] n l by (simp add:)
qed

text \<open>
  Claim C9. On the standard input with the lines \<^verbatim>\<open>a\<close> and \<^verbatim>\<open>b\<close>, the profiler queue
  receives the record of \<^verbatim>\<open>a\<close>, the record of \<^verbatim>\<open>b\<close> and the sentinel, and no record is
  modified after it was put on the queue. In the code both queue entries are the same
  dictionary: with the line \<^verbatim>\<open>a\<close> alone the first entry reads \<^verbatim>\<open>a\<close>, and with \<^verbatim>\<open>b\<close> after
  it the first entry reads \<^verbatim>\<open>b\<close> as the second does.
\<close>

theorem stdin_record_is_overwritten:
  "delivered (run 0 (stdin_scenario [''a\<newline>'']) ''file'' ''-'')
     = Some [PDict [(''type'', PStr ''stdin''), (''data'', PStr ''a\<newline>'')], PStr ''stop'']
   \<and> delivered (run 0 (stdin_scenario [''a\<newline>'', ''b\<newline>'']) ''file'' ''-'')
     = Some [PDict [(''type'', PStr ''stdin''), (''data'', PStr ''b\<newline>'')],
             PDict [(''type'', PStr ''stdin''), (''data'', PStr ''b\<newline>'')],
             PStr ''stop'']"
  by (simp add: stdin_scenario_def run_defs tailer_defs scenario_defs)

section \<open>The sentinel\<close>

text \<open>
  Claim C1. For every input mode, a run that terminates cleanly puts the sentinel
  \<^verbatim>\<open>stop\<close> on the profiler queue after the last record. For a capture file from which
  Zeek writes no log, \<^verbatim>\<open>run\<close> returns with an empty profiler queue; on an empty standard
  input it returns with the sentinel on the queue.
\<close>

theorem pcap_returns_without_sentinel:
  "delivered (run 1 (idle_scenario pcap_clock) ''pcap'' ''capture.pcap'') = Some []
   \<and> delivered (run 1 (idle_scenario pcap_clock) ''file'' ''-'') = Some [PStr ''stop'']"
  by (simp add: idle_scenario_def pcap_clock_def run_defs tailer_defs scenario_defs)

text \<open>
  The sentinel closes every run on a file, a folder or the standard input that returns;
  a run on a capture file or an interface never sends it; a run on an interface and a run
  on an nfdump file never return.
\<close>

lemma file_mode_ends_with_stop:
  assumes "run fuel E ''file'' input_information = Some (Returned v w)"
  shows "\<exists>q. w_profilerqueue w = q @ [QStr ''stop'']"
  using assms
  by (auto simp: run_def Let_def split: if_splits option.splits sum.splits prod.splits)

lemma capture_modes_never_send_stop:
  assumes m: "input_type = ''pcap'' \<or> input_type = ''interface''"
    and r: "run fuel E input_type input_information = Some (Returned v w)"
  shows "QStr ''stop'' \<notin> set (w_profilerqueue w)"
proof -
  obtain bt w0 where tz: "tail_zeek fuel E bt w0 = Some (Inr w)" and q0: "w_profilerqueue w0 = []"
    using m r
    by (auto simp: run_def Let_def init_world_def split: if_splits option.splits sum.splits)
  then obtain n s where rz: "read_zeek_files fuel E bt [] (w_heap w0)
             (w_clock_calls w0) (w_db_calls w0) (w_sleeps w0) = Some (Inr (n, s))"
    and w: "w_profilerqueue w = profilerqueue s"
    by (auto simp: tail_zeek_def world_of_tailer_def split: option.splits sum.splits)
  then have "zeek_loop fuel E bt (init_tailer E [] (w_heap w0)
             (w_clock_calls w0) (w_db_calls w0) (w_sleeps w0)) = Done s"
    by (auto simp: read_zeek_files_def split: progress.splits)
  then have "state_of (zeek_loop fuel E bt (init_tailer E [] (w_heap w0)
             (w_clock_calls w0) (w_db_calls w0) (w_sleeps w0))) = Some s"
    by (simp add: state_of_def)
  with init_flows have "flows_only s"
    by (rule zeek_loop_flows)
  then have "\<forall>q\<in>set (profilerqueue s). \<exists>k. record_type (heap s) q = Some k"
    by (auto simp: flows_only_def)
  then have "QStr ''stop'' \<notin> set (profilerqueue s)"
    by (auto simp: record_type_def)
  then show ?thesis using w by simp
qed

lemma interface_mode_never_returns:
  "run fuel E ''interface'' input_information \<noteq> Some (Returned v w)"
proof -
  have "read_zeek_files fuel E 9999999999999999 q h c d sl \<noteq> Some (Inr r)" for q h c d sl r
    using zeek_loop_never_done [of 9999999999999999 fuel E]
    by (auto simp: read_zeek_files_def split: progress.splits)
  then have "tail_zeek fuel E 9999999999999999 w0 \<noteq> Some (Inr w)" for w0
    by (auto simp: tail_zeek_def split: option.splits sum.splits)
  then show ?thesis
    by (auto simp: run_def Let_def split: option.splits sum.splits)
qed

lemma nfdump_mode_never_returns:
  "run fuel E ''nfdump'' input_information = None"
proof -
  have "nf_loop fuel E 10 (init_nfreader E [] [] 0 []) \<noteq> Done s" for s
    using nf_loop_running [of fuel E 10 "init_nfreader E [] [] 0 []"] by auto
  then have "read_nfdump_file fuel E 10 [] [] 0 [] = None"
    by (auto simp: read_nfdump_file_def split: progress.splits)
  then show ?thesis
    by (simp add: run_def init_world_def)
qed

end
